theory Spec2Isabelle
  imports Main "HOL-Library.AList" "HOL-Library.Product_Lexorder" "HOL-Library.List_Lexorder"
begin

text \<open>
  The client layer of a personal-finance application over Firebase: the storage module
  (\<open>validateFile\<close>, \<open>uploadFile\<close>, \<open>deleteFile\<close>, \<open>deleteFiles\<close>), the Firestore
  module (\<open>createDocument\<close>, \<open>getDocument\<close>, \<open>saveStatement\<close>, \<open>getUserStatements\<close>,
  \<open>saveTransactions\<close>, \<open>getTransactionsByStatement\<close>, \<open>getUserTransactions\<close>) and the
  authentication module (\<open>signUp\<close>, \<open>signIn\<close>, \<open>signInWithGoogle\<close>, \<open>logOut\<close>,
  \<open>createUserDocument\<close>). Each operation is a function from the state of the platform
  to the new state and the value its promise settles with. The SDK calls are modelled
  next to them, with their failures.
\<close>

section \<open>JavaScript values and results\<close>

text \<open>
  Field values of a stored document. Numbers are kept as integers: the code never does
  arithmetic on a stored number, it only passes them through and tests truthiness.
  \<open>ServerTimestamp\<close> is the sentinel that \<open>serverTimestamp()\<close> returns; the
  platform replaces it by its clock reading (\<open>Time\<close>) when it writes the document.
\<close>

datatype jsval =
    Undefined
  | Null
  | Bool bool
  | Num int
  | Str string
  | Time nat
  | ServerTimestamp
  | Arr "jsval list"
  | Obj "(string \<times> jsval) list"

type_synonym document = "string \<rightharpoonup> jsval"

text \<open>JavaScript truthiness and the \<open>a || b\<close> operator.\<close>

fun truthy :: "jsval \<Rightarrow> bool" where
  "truthy Undefined = False"
| "truthy Null = False"
| "truthy (Bool b) = b"
| "truthy (Num n) = (n \<noteq> 0)"
| "truthy (Str s) = (s \<noteq> [])"
| "truthy v = True"

definition js_or :: "jsval \<Rightarrow> jsval \<Rightarrow> jsval" where
  "js_or a b = (if truthy a then a else b)"

text \<open>Property access \<open>obj.k\<close> on an object: a missing property reads as \<open>undefined\<close>.\<close>

definition field :: "document \<Rightarrow> string \<Rightarrow> jsval" where
  "field d k = (case d k of Some v \<Rightarrow> v | None \<Rightarrow> Undefined)"

text \<open>
  The two shapes every operation resolves to: \<open>{ success: true, ... }\<close> carrying a
  payload and \<open>{ success: false, error }\<close> carrying the message.
\<close>

datatype 'a result = Success 'a | Failure string

text \<open>The payload of a successful result, if it is one.\<close>

definition payload :: "'a result \<Rightarrow> 'a option" where
  "payload r = (case r of Success x \<Rightarrow> Some x | Failure m \<Rightarrow> None)"

text \<open>What the platform SDK throws: an error object with a code and a message.\<close>

datatype sdk_error = SdkError (err_code: string) (err_message: string)

text \<open>
  An operation whose whole body sits in a \<open>try\<close> with a \<open>catch\<close> that returns
  \<open>{ success: false, error }\<close> always fulfils its promise; it is a function into
  \<open>result\<close>. Where a promise can also be rejected, the operation returns a
  \<open>settled\<close> value: fulfilled with a value, or rejected with one.
\<close>

datatype 'a settled = Fulfilled 'a | Rejected 'a

section \<open>The platform: document store, file storage, identity provider\<close>

record file_metadata =
  md_name :: string
  md_size :: nat
  md_contentType :: string
  md_timeCreated :: nat
  md_fullPath :: string

text \<open>
  The SDK's user object: \<open>email\<close>, \<open>displayName\<close> and \<open>photoURL\<close> are a string or
  \<open>null\<close> (\<open>None\<close>); \<open>js_string\<close> reads such a field as a value.
\<close>

record fb_user =
  uid :: string
  email :: "string option"
  displayName :: "string option"
  photoURL :: "string option"

definition js_string :: "string option \<Rightarrow> jsval" where
  "js_string x = (case x of None \<Rightarrow> Null | Some s \<Rightarrow> Str s)"

datatype direction = Asc | Desc

datatype where_op = OpEq | OpIn

datatype constraint =
    Where string where_op jsval
  | OrderBy string direction
  | Limit nat

record query =
  q_collection :: string
  q_constraints :: "constraint list"

datatype sdk_call =
    AddDoc string
  | UpdateDoc string string
  | DeleteDoc string string
  | GetDoc string string
  | SetDoc string string
  | GetDocs query
  | BatchCommit nat
  | SignInWithEmailAndPassword string string
  | CreateUserWithEmailAndPassword string string
  | UpdateProfile string
  | SignInWithPopup
  | SignOut
  | SendPasswordResetEmail string
  | UploadBytes string
  | UploadBytesResumable string
  | GetDownloadURL string
  | GetMetadata string
  | DeleteObject string

text \<open>
  The state of the platform as the code can observe it. \<open>docs\<close> holds the documents
  under (collection, id); \<open>files\<close> the stored objects; \<open>accounts\<close> the
  email/password accounts of the identity provider and \<open>google\<close> the account a Google
  popup would hand back. \<open>fresh_id\<close> is the stream of automatic document ids and
  \<open>next_id\<close> the position in it. \<open>calls\<close> logs every SDK call made. \<open>faults\<close>
  says which calls fail: the \<open>n\<close>-th SDK call throws \<open>e\<close> when
  \<open>faults n = Some e\<close>. Theorems quantify over all backends, hence over every pattern
  of SDK failures: network, permissions, and data the store refuses (Firestore rejects a
  write that carries an \<open>undefined\<close> field value). For \<open>addDoc\<close>, \<open>setDoc\<close> and
  \<open>updateDoc\<close> such a refusal is a failure of the call itself; for a write batch it
  happens at \<open>batch.set\<close>, before the commit, and is modelled there. The examples only
  write data that the store accepts.
\<close>

record backend =
  docs :: "((string \<times> string) \<times> document) list"
  files :: "string \<rightharpoonup> file_metadata"
  accounts :: "(string \<times> string \<times> fb_user) list"
  google :: "fb_user option"
  clock :: nat
  next_id :: nat
  fresh_id :: "nat \<Rightarrow> string"
  calls :: "sdk_call list"
  faults :: "nat \<Rightarrow> sdk_error option"

definition invoke :: "sdk_call \<Rightarrow> backend \<Rightarrow> backend \<times> sdk_error option" where
  "invoke c b = (b\<lparr>calls := calls b @ [c]\<rparr>, faults b (length (calls b)))"

subsection \<open>File storage SDK\<close>

record js_file =
  file_name :: string
  file_size :: nat
  file_type :: string

definition not_found :: sdk_error where
  "not_found = SdkError ''storage/object-not-found'' ''Object does not exist.''"

definition store_file :: "string \<Rightarrow> js_file \<Rightarrow> backend \<Rightarrow> backend" where
  "store_file path f b =
     b\<lparr>files := (files b)(path \<mapsto>
          \<lparr>md_name = file_name f, md_size = file_size f, md_contentType = file_type f,
           md_timeCreated = clock b, md_fullPath = path\<rparr>),
       clock := Suc (clock b)\<rparr>"

definition uploadBytes :: "backend \<Rightarrow> string \<Rightarrow> js_file \<Rightarrow> backend \<times> (sdk_error + string)" where
  "uploadBytes b path f =
     (case invoke (UploadBytes path) b of
        (b1, Some e) \<Rightarrow> (b1, Inl e)
      | (b1, None) \<Rightarrow> (store_file path f b1, Inr path))"

definition uploadBytesResumable ::
  "backend \<Rightarrow> string \<Rightarrow> js_file \<Rightarrow> backend \<times> (sdk_error + string)" where
  "uploadBytesResumable b path f =
     (case invoke (UploadBytesResumable path) b of
        (b1, Some e) \<Rightarrow> (b1, Inl e)
      | (b1, None) \<Rightarrow> (store_file path f b1, Inr path))"

definition download_url :: "string \<Rightarrow> string" where
  "download_url path = ''https://firebasestorage.googleapis.com/'' @ path"

definition getDownloadURL :: "backend \<Rightarrow> string \<Rightarrow> backend \<times> (sdk_error + string)" where
  "getDownloadURL b path =
     (case invoke (GetDownloadURL path) b of
        (b1, Some e) \<Rightarrow> (b1, Inl e)
      | (b1, None) \<Rightarrow>
          (case files b1 path of
             None \<Rightarrow> (b1, Inl not_found)
           | Some m \<Rightarrow> (b1, Inr (download_url path))))"

definition getMetadata :: "backend \<Rightarrow> string \<Rightarrow> backend \<times> (sdk_error + file_metadata)" where
  "getMetadata b path =
     (case invoke (GetMetadata path) b of
        (b1, Some e) \<Rightarrow> (b1, Inl e)
      | (b1, None) \<Rightarrow>
          (case files b1 path of
             None \<Rightarrow> (b1, Inl not_found)
           | Some m \<Rightarrow> (b1, Inr m)))"

definition deleteObject :: "backend \<Rightarrow> string \<Rightarrow> backend \<times> (sdk_error + unit)" where
  "deleteObject b path =
     (case invoke (DeleteObject path) b of
        (b1, Some e) \<Rightarrow> (b1, Inl e)
      | (b1, None) \<Rightarrow>
          (case files b1 path of
             None \<Rightarrow> (b1, Inl not_found)
           | Some m \<Rightarrow> (b1\<lparr>files := (files b1)(path := None)\<rparr>, Inr ())))"

subsection \<open>Document store SDK\<close>

text \<open>
  The platform replaces every \<open>serverTimestamp()\<close> sentinel of a written document, at
  any depth, by its clock reading.
\<close>

primrec stamp :: "nat \<Rightarrow> jsval \<Rightarrow> jsval" where
  "stamp t Undefined = Undefined"
| "stamp t Null = Null"
| "stamp t (Bool x) = Bool x"
| "stamp t (Num n) = Num n"
| "stamp t (Str s) = Str s"
| "stamp t (Time n) = Time n"
| "stamp t ServerTimestamp = Time t"
| "stamp t (Arr vs) = Arr (map (stamp t) vs)"
| "stamp t (Obj kvs) = Obj (map (map_prod id (stamp t)) kvs)"

definition stamp_doc :: "nat \<Rightarrow> document \<Rightarrow> document" where
  "stamp_doc t d = (\<lambda>k. map_option (stamp t) (d k))"

text \<open>What \<open>getDoc\<close> hands back: the id, and the fields when the document exists.\<close>

record snapshot =
  snap_id :: string
  snap_data :: "document option"

definition snap_exists :: "snapshot \<Rightarrow> bool" where
  "snap_exists s = (snap_data s \<noteq> None)"

definition no_document :: sdk_error where
  "no_document = SdkError ''not-found'' ''No document to update''"

definition addDoc :: "backend \<Rightarrow> string \<Rightarrow> document \<Rightarrow> backend \<times> (sdk_error + string)" where
  "addDoc b c d =
     (case invoke (AddDoc c) b of
        (b1, Some e) \<Rightarrow> (b1, Inl e)
      | (b1, None) \<Rightarrow>
          (b1\<lparr>docs := AList.update (c, fresh_id b1 (next_id b1)) (stamp_doc (clock b1) d) (docs b1),
              next_id := Suc (next_id b1), clock := Suc (clock b1)\<rparr>,
           Inr (fresh_id b1 (next_id b1))))"

definition updateDoc ::
  "backend \<Rightarrow> string \<Rightarrow> string \<Rightarrow> document \<Rightarrow> backend \<times> (sdk_error + unit)" where
  "updateDoc b c i d =
     (case invoke (UpdateDoc c i) b of
        (b1, Some e) \<Rightarrow> (b1, Inl e)
      | (b1, None) \<Rightarrow>
          (case map_of (docs b1) (c, i) of
             None \<Rightarrow> (b1, Inl no_document)
           | Some old \<Rightarrow>
               (b1\<lparr>docs := AList.update (c, i) (old ++ stamp_doc (clock b1) d) (docs b1),
                   clock := Suc (clock b1)\<rparr>, Inr ())))"

definition deleteDoc :: "backend \<Rightarrow> string \<Rightarrow> string \<Rightarrow> backend \<times> (sdk_error + unit)" where
  "deleteDoc b c i =
     (case invoke (DeleteDoc c i) b of
        (b1, Some e) \<Rightarrow> (b1, Inl e)
      | (b1, None) \<Rightarrow> (b1\<lparr>docs := AList.delete (c, i) (docs b1)\<rparr>, Inr ()))"

definition getDoc :: "backend \<Rightarrow> string \<Rightarrow> string \<Rightarrow> backend \<times> (sdk_error + snapshot)" where
  "getDoc b c i =
     (case invoke (GetDoc c i) b of
        (b1, Some e) \<Rightarrow> (b1, Inl e)
      | (b1, None) \<Rightarrow> (b1, Inr \<lparr>snap_id = i, snap_data = map_of (docs b1) (c, i)\<rparr>))"

definition setDoc ::
  "backend \<Rightarrow> string \<Rightarrow> string \<Rightarrow> document \<Rightarrow> backend \<times> (sdk_error + unit)" where
  "setDoc b c i d =
     (case invoke (SetDoc c i) b of
        (b1, Some e) \<Rightarrow> (b1, Inl e)
      | (b1, None) \<Rightarrow>
          (b1\<lparr>docs := AList.update (c, i) (stamp_doc (clock b1) d) (docs b1),
              clock := Suc (clock b1)\<rparr>, Inr ()))"

text \<open>
  A write batch collects writes locally; \<open>commit\<close> applies all of them or, when it
  fails, none. \<open>doc(collection(db, c))\<close> draws a fresh automatic id without calling
  the platform. \<open>batch.set(ref, data)\<close> validates \<open>data\<close> on the spot, before anything is
  sent: it throws when a value is \<open>undefined\<close>, at any depth, when a
  \<open>serverTimestamp()\<close> sentinel sits inside an array, and when an array is an element of
  an array. \<open>accepts a e v\<close> is that check on the value \<open>v\<close>, where \<open>a\<close> says that \<open>v\<close>
  lies inside an array and \<open>e\<close> that it is itself an element of one. The object literal
  that is handed to \<open>batch.set\<close> is given by its entries.
\<close>

type_synonym write_batch = "((string \<times> string) \<times> document) list"

fun accepts :: "bool \<Rightarrow> bool \<Rightarrow> jsval \<Rightarrow> bool" where
  "accepts a e Undefined = False"
| "accepts a e ServerTimestamp = (\<not> a)"
| "accepts a e (Arr vs) = (\<not> e \<and> (\<forall>v \<in> set vs. accepts True True v))"
| "accepts a e (Obj kvs) = (\<forall>kv \<in> set kvs. accepts a False (snd kv))"
| "accepts a e v = True"

definition storable :: "jsval \<Rightarrow> bool" where
  "storable v = accepts False False v"

definition unsupported_value :: sdk_error where
  "unsupported_value = SdkError ''invalid-argument''
     ''Function WriteBatch.set() called with invalid data. Unsupported field value: undefined''"

definition batch_set ::
  "write_batch \<Rightarrow> string \<times> string \<Rightarrow> (string \<times> jsval) list \<Rightarrow> sdk_error + write_batch" where
  "batch_set batch r entries =
     (if list_all (\<lambda>(k, v). storable v) entries then Inr (batch @ [(r, map_of entries)])
      else Inl unsupported_value)"

definition new_doc_ref :: "backend \<Rightarrow> string \<Rightarrow> backend \<times> (string \<times> string)" where
  "new_doc_ref b c = (b\<lparr>next_id := Suc (next_id b)\<rparr>, (c, fresh_id b (next_id b)))"

definition apply_writes ::
  "nat \<Rightarrow> write_batch \<Rightarrow> ((string \<times> string) \<times> document) list
     \<Rightarrow> ((string \<times> string) \<times> document) list" where
  "apply_writes t batch ds = fold (\<lambda>(k, d). AList.update k (stamp_doc t d)) batch ds"

definition commit :: "backend \<Rightarrow> write_batch \<Rightarrow> backend \<times> (sdk_error + unit)" where
  "commit b batch =
     (case invoke (BatchCommit (length batch)) b of
        (b1, Some e) \<Rightarrow> (b1, Inl e)
      | (b1, None) \<Rightarrow>
          (b1\<lparr>docs := apply_writes (clock b1) batch (docs b1), clock := Suc (clock b1)\<rparr>,
           Inr ()))"

text \<open>
  Queries, as Firestore evaluates them. A \<open>where\<close> with \<open>==\<close> keeps the documents
  whose field is present and equal to the value; with \<open>in\<close>, those whose field is
  present and equal to a member of the array. An \<open>orderBy\<close> also filters for the
  existence of its field: documents without the ordering field are not in the result.
  The others are sorted by Firestore's order on values: null, then booleans, numbers,
  timestamps, strings, arrays, objects; inside arrays and inside objects the order is
  left unrefined. Ties are broken by document id. Only the first \<open>orderBy\<close> of a query
  is used for sorting (no query of this program has more than one); without any, the
  order is by document id. The last \<open>limit\<close> cuts the sorted list.
\<close>

definition collection_docs ::
  "((string \<times> string) \<times> document) list \<Rightarrow> string \<Rightarrow> (string \<times> document) list" where
  "collection_docs ds c = map (\<lambda>(k, d). (snd k, d)) (filter (\<lambda>(k, d). fst k = c) ds)"

fun fs_key :: "jsval \<Rightarrow> nat \<times> int \<times> nat list" where
  "fs_key (Bool x) = (1, (if x then 1 else 0), [])"
| "fs_key (Num n) = (2, n, [])"
| "fs_key (Time t) = (3, int t, [])"
| "fs_key (Str s) = (4, 0, map of_char s)"
| "fs_key (Arr vs) = (5, 0, [])"
| "fs_key (Obj kvs) = (6, 0, [])"
| "fs_key v = (0, 0, [])"

definition id_key :: "string \<Rightarrow> nat list" where
  "id_key i = map of_char i"

definition sort_key_of :: "string \<Rightarrow> string \<times> document \<Rightarrow> (nat \<times> int \<times> nat list) \<times> nat list" where
  "sort_key_of f = (\<lambda>(i, d). (fs_key (field d f), id_key i))"

fun satisfies :: "document \<Rightarrow> constraint \<Rightarrow> bool" where
  "satisfies d (Where f OpEq v) = (d f = Some v)"
| "satisfies d (Where f OpIn v) =
     (case v of
        Arr vs \<Rightarrow> (case d f of Some x \<Rightarrow> x \<in> set vs | None \<Rightarrow> False)
      | _ \<Rightarrow> False)"
| "satisfies d (OrderBy f dir) = (d f \<noteq> None)"
| "satisfies d (Limit n) = True"

fun first_order :: "constraint list \<Rightarrow> (string \<times> direction) option" where
  "first_order [] = None"
| "first_order (OrderBy f dir # cs) = Some (f, dir)"
| "first_order (c # cs) = first_order cs"

fun last_limit :: "constraint list \<Rightarrow> nat option" where
  "last_limit [] = None"
| "last_limit (Limit n # cs) = (case last_limit cs of None \<Rightarrow> Some n | Some m \<Rightarrow> Some m)"
| "last_limit (c # cs) = last_limit cs"

definition order_docs ::
  "(string \<times> direction) option \<Rightarrow> (string \<times> document) list \<Rightarrow> (string \<times> document) list" where
  "order_docs ord ds =
     (case ord of
        None \<Rightarrow> sort_key (\<lambda>(i, d). id_key i) ds
      | Some (f, Asc) \<Rightarrow> sort_key (sort_key_of f) ds
      | Some (f, Desc) \<Rightarrow> rev (sort_key (sort_key_of f) ds))"

definition cut :: "nat option \<Rightarrow> 'a list \<Rightarrow> 'a list" where
  "cut lim xs = (case lim of None \<Rightarrow> xs | Some n \<Rightarrow> take n xs)"

definition run_query ::
  "((string \<times> string) \<times> document) list \<Rightarrow> query \<Rightarrow> (string \<times> document) list" where
  "run_query ds q =
     cut (last_limit (q_constraints q))
       (order_docs (first_order (q_constraints q))
          (filter (\<lambda>(i, d). list_all (satisfies d) (q_constraints q))
             (collection_docs ds (q_collection q))))"

definition getDocs :: "backend \<Rightarrow> query \<Rightarrow> backend \<times> (sdk_error + (string \<times> document) list)" where
  "getDocs b q =
     (case invoke (GetDocs q) b of
        (b1, Some e) \<Rightarrow> (b1, Inl e)
      | (b1, None) \<Rightarrow> (b1, Inr (run_query (docs b1) q)))"

text \<open>
  \<open>query(collection(db, c), c1, ..., cn)\<close> builds a query; \<open>query(q, c)\<close> adds a
  constraint to one. \<open>limit(n)\<close> throws unless \<open>n\<close> is positive.
\<close>

definition limit_of :: "nat \<Rightarrow> sdk_error + constraint" where
  "limit_of n =
     (if n = 0 then
        Inl (SdkError ''invalid-argument''
               ''Function limit() requires a positive number, but it was: 0.'')
      else Inr (Limit n))"

definition query_of :: "string \<Rightarrow> constraint list \<Rightarrow> query" where
  "query_of c cs = \<lparr>q_collection = c, q_constraints = cs\<rparr>"

definition query_add :: "query \<Rightarrow> constraint \<Rightarrow> query" where
  "query_add q c = q\<lparr>q_constraints := q_constraints q @ [c]\<rparr>"

subsection \<open>Identity provider SDK\<close>

definition invalid_credential :: sdk_error where
  "invalid_credential = SdkError ''auth/invalid-credential'' ''Invalid email or password''"

definition email_in_use :: sdk_error where
  "email_in_use = SdkError ''auth/email-already-in-use'' ''Email already in use''"

definition popup_closed :: sdk_error where
  "popup_closed = SdkError ''auth/popup-closed-by-user'' ''Popup closed by user''"

definition signInWithEmailAndPassword ::
  "backend \<Rightarrow> string \<Rightarrow> string \<Rightarrow> backend \<times> (sdk_error + fb_user)" where
  "signInWithEmailAndPassword b em pw =
     (case invoke (SignInWithEmailAndPassword em pw) b of
        (b1, Some e) \<Rightarrow> (b1, Inl e)
      | (b1, None) \<Rightarrow>
          (case map_of (accounts b1) em of
             None \<Rightarrow> (b1, Inl invalid_credential)
           | Some (pw', u) \<Rightarrow> if pw' = pw then (b1, Inr u) else (b1, Inl invalid_credential)))"

definition createUserWithEmailAndPassword ::
  "backend \<Rightarrow> string \<Rightarrow> string \<Rightarrow> backend \<times> (sdk_error + fb_user)" where
  "createUserWithEmailAndPassword b em pw =
     (case invoke (CreateUserWithEmailAndPassword em pw) b of
        (b1, Some e) \<Rightarrow> (b1, Inl e)
      | (b1, None) \<Rightarrow>
          (case map_of (accounts b1) em of
             Some x \<Rightarrow> (b1, Inl email_in_use)
           | None \<Rightarrow>
               (b1\<lparr>accounts := accounts b1 @
                     [(em, pw, \<lparr>uid = fresh_id b1 (next_id b1), email = Some em,
                                displayName = None, photoURL = None\<rparr>)],
                   next_id := Suc (next_id b1)\<rparr>,
                Inr \<lparr>uid = fresh_id b1 (next_id b1), email = Some em,
                     displayName = None, photoURL = None\<rparr>)))"

text \<open>\<open>updateProfile\<close> changes the account and the user object it was given.\<close>

definition updateProfile ::
  "backend \<Rightarrow> fb_user \<Rightarrow> string \<Rightarrow> backend \<times> (sdk_error + fb_user)" where
  "updateProfile b u dn =
     (case invoke (UpdateProfile (uid u)) b of
        (b1, Some e) \<Rightarrow> (b1, Inl e)
      | (b1, None) \<Rightarrow>
          (b1\<lparr>accounts := map (\<lambda>(em, pw, v).
                 if uid v = uid u then (em, pw, v\<lparr>displayName := Some dn\<rparr>) else (em, pw, v))
               (accounts b1)\<rparr>,
           Inr (u\<lparr>displayName := Some dn\<rparr>)))"

definition signInWithPopup :: "backend \<Rightarrow> backend \<times> (sdk_error + fb_user)" where
  "signInWithPopup b =
     (case invoke SignInWithPopup b of
        (b1, Some e) \<Rightarrow> (b1, Inl e)
      | (b1, None) \<Rightarrow>
          (case google b1 of
             None \<Rightarrow> (b1, Inl popup_closed)
           | Some u \<Rightarrow> (b1, Inr u)))"

definition signOut :: "backend \<Rightarrow> backend \<times> (sdk_error + unit)" where
  "signOut b =
     (case invoke SignOut b of
        (b1, Some e) \<Rightarrow> (b1, Inl e)
      | (b1, None) \<Rightarrow> (b1, Inr ()))"

section \<open>File storage operations\<close>

text \<open>
  \<open>validateFile\<close> returns \<open>{ isValid: true }\<close> or \<open>{ isValid: false, error }\<close>.
  A missing file (\<open>null\<close>) is \<open>None\<close>.
\<close>

datatype validation = IsValid | NotValid string

definition maxSize :: nat where
  "maxSize = 10 * 1024 * 1024"

definition allowedTypes :: "string list" where
  "allowedTypes =
     [''application/pdf'', ''image/jpeg'', ''image/jpg'', ''image/png'', ''image/webp'']"

definition validateFile :: "js_file option \<Rightarrow> validation" where
  "validateFile file =
     (case file of
        None \<Rightarrow> NotValid ''No file selected''
      | Some f \<Rightarrow>
          if file_size f > maxSize then NotValid ''File size must be less than 10MB''
          else if file_type f \<notin> set allowedTypes then
            NotValid ''File type not supported. Please upload PDF, JPEG, PNG, or WebP files.''
          else IsValid)"

record upload_info =
  url :: string
  metadata :: file_metadata

text \<open>
  The progress callback only reports a percentage to the caller; what matters to the
  control flow is whether one was passed. In \<open>uploadFile\<close> the inner \<open>None\<close> branch
  only serves to name the file: \<open>validateFile\<close> has already refused a missing one.
\<close>

datatype progress_callback = ProgressCallback

text \<open>
  The tail shared by both upload paths: fetch the download URL, then the metadata.
  The third argument says what becomes of a failure: the plain path throws into the
  enclosing \<open>catch\<close>, which fulfils with a failure; the progress path calls
  \<open>reject\<close>.
\<close>

definition finish_upload ::
  "backend \<Rightarrow> string \<Rightarrow> (string \<Rightarrow> upload_info result settled)
     \<Rightarrow> backend \<times> upload_info result settled" where
  "finish_upload b r on_error =
     (case getDownloadURL b r of
        (b1, Inl e) \<Rightarrow> (b1, on_error (err_message e))
      | (b1, Inr downloadURL) \<Rightarrow>
          (case getMetadata b1 r of
             (b2, Inl e) \<Rightarrow> (b2, on_error (err_message e))
           | (b2, Inr m) \<Rightarrow>
               (b2, Fulfilled (Success \<lparr>url = downloadURL,
                  metadata = \<lparr>md_name = md_name m, md_size = md_size m,
                    md_contentType = md_contentType m, md_timeCreated = md_timeCreated m,
                    md_fullPath = md_fullPath m\<rparr>\<rparr>))))"

definition uploadFile ::
  "backend \<Rightarrow> js_file option \<Rightarrow> string \<Rightarrow> progress_callback option
     \<Rightarrow> backend \<times> upload_info result settled" where
  "uploadFile b file path onProgress =
     (case validateFile file of
        NotValid msg \<Rightarrow> (b, Fulfilled (Failure msg))
      | IsValid \<Rightarrow>
          (case file of
             None \<Rightarrow> (b, Fulfilled (Failure ''No file selected''))
           | Some f \<Rightarrow>
               (case onProgress of
                  Some cb \<Rightarrow>
                    (case uploadBytesResumable b path f of
                       (b1, Inl e) \<Rightarrow> (b1, Rejected (Failure (err_message e)))
                     | (b1, Inr r) \<Rightarrow>
                         finish_upload b1 r (\<lambda>msg. Rejected (Failure msg)))
                | None \<Rightarrow>
                    (case uploadBytes b path f of
                       (b1, Inl e) \<Rightarrow> (b1, Fulfilled (Failure (err_message e)))
                     | (b1, Inr r) \<Rightarrow>
                         finish_upload b1 r (\<lambda>msg. Fulfilled (Failure msg))))))"

definition deleteFile :: "backend \<Rightarrow> string \<Rightarrow> backend \<times> unit result" where
  "deleteFile b filePath =
     (case deleteObject b filePath of
        (b1, Inl e) \<Rightarrow> (b1, Failure (err_message e))
      | (b1, Inr u) \<Rightarrow> (b1, Success ()))"

text \<open>
  \<open>filePaths.map(path => deleteFile(path))\<close> followed by \<open>Promise.allSettled\<close>: one
  call of \<open>deleteFile\<close> per path, started in list order, each settling on its own.
\<close>

fun allSettled_deleteFile ::
  "backend \<Rightarrow> string list \<Rightarrow> backend \<times> unit result settled list" where
  "allSettled_deleteFile b [] = (b, [])"
| "allSettled_deleteFile b (p # ps) =
     (case deleteFile b p of
        (b1, r) \<Rightarrow>
          (case allSettled_deleteFile b1 ps of (b2, rs) \<Rightarrow> (b2, Fulfilled r # rs)))"

record tally =
  successful :: nat
  failed :: nat
  total :: nat

text \<open>
  The two filters of \<open>deleteFiles\<close>:
  \<open>result.status === 'fulfilled' && result.value.success\<close> and
  \<open>result.status === 'rejected' || !result.value.success\<close>.
\<close>

definition is_successful :: "unit result settled \<Rightarrow> bool" where
  "is_successful r = (case r of Fulfilled (Success u) \<Rightarrow> True | _ \<Rightarrow> False)"

definition is_failed :: "unit result settled \<Rightarrow> bool" where
  "is_failed r = (case r of Rejected x \<Rightarrow> True | Fulfilled (Success u) \<Rightarrow> False
                   | Fulfilled (Failure m) \<Rightarrow> True)"

definition deleteFiles :: "backend \<Rightarrow> string list \<Rightarrow> backend \<times> tally result" where
  "deleteFiles b filePaths =
     (case allSettled_deleteFile b filePaths of
        (b1, results) \<Rightarrow>
          (b1, Success
             \<lparr>successful = length (filter is_successful results),
              failed = length (filter is_failed results),
              total = length filePaths\<rparr>))"

section \<open>Document store operations\<close>

definition USERS :: string where "USERS = ''users''"
definition STATEMENTS :: string where "STATEMENTS = ''statements''"
definition TRANSACTIONS :: string where "TRANSACTIONS = ''transactions''"

text \<open>
  An object literal \<open>{ k1: v1, ..., kn: vn }\<close> is the map of its entries; a spread
  \<open>{ ...a, k: v }\<close> is \<open>a(k \<mapsto> v)\<close> and \<open>{ k: v, ...a }\<close> is \<open>[k \<mapsto> v] ++ a\<close>:
  the later entry wins. Parameters that the code reads properties from
  (\<open>data\<close>, \<open>statementData\<close>, each transaction, \<open>additionalData\<close>) are objects.
\<close>

definition createDocument :: "backend \<Rightarrow> string \<Rightarrow> document \<Rightarrow> backend \<times> string result" where
  "createDocument b collectionName data =
     (case addDoc b collectionName
             (data(''createdAt'' \<mapsto> ServerTimestamp, ''updatedAt'' \<mapsto> ServerTimestamp)) of
        (b1, Inl e) \<Rightarrow> (b1, Failure (err_message e))
      | (b1, Inr i) \<Rightarrow> (b1, Success i))"

definition updateDocument ::
  "backend \<Rightarrow> string \<Rightarrow> string \<Rightarrow> document \<Rightarrow> backend \<times> unit result" where
  "updateDocument b collectionName docId data =
     (case updateDoc b collectionName docId (data(''updatedAt'' \<mapsto> ServerTimestamp)) of
        (b1, Inl e) \<Rightarrow> (b1, Failure (err_message e))
      | (b1, Inr u) \<Rightarrow> (b1, Success ()))"

definition deleteDocument :: "backend \<Rightarrow> string \<Rightarrow> string \<Rightarrow> backend \<times> unit result" where
  "deleteDocument b collectionName docId =
     (case deleteDoc b collectionName docId of
        (b1, Inl e) \<Rightarrow> (b1, Failure (err_message e))
      | (b1, Inr u) \<Rightarrow> (b1, Success ()))"

text \<open>\<open>{ id: doc.id, ...doc.data() }\<close>\<close>

definition with_id :: "string \<Rightarrow> document \<Rightarrow> document" where
  "with_id i d = [''id'' \<mapsto> Str i] ++ d"

definition getDocument :: "backend \<Rightarrow> string \<Rightarrow> string \<Rightarrow> backend \<times> document result" where
  "getDocument b collectionName docId =
     (case getDoc b collectionName docId of
        (b1, Inl e) \<Rightarrow> (b1, Failure (err_message e))
      | (b1, Inr docSnap) \<Rightarrow>
          (case snap_data docSnap of
             Some d \<Rightarrow> (b1, Success (with_id (snap_id docSnap) d))
           | None \<Rightarrow> (b1, Failure ''Document not found'')))"

definition statement_record :: "string \<Rightarrow> document \<Rightarrow> document" where
  "statement_record userId statementData = map_of
     [(''userId'', Str userId),
      (''fileName'', field statementData ''fileName''),
      (''fileSize'', field statementData ''fileSize''),
      (''fileUrl'', field statementData ''fileUrl''),
      (''bankName'', field statementData ''bankName''),
      (''accountNumber'', field statementData ''accountNumber''),
      (''statementPeriod'', field statementData ''statementPeriod''),
      (''totalTransactions'', field statementData ''totalTransactions''),
      (''status'', Str ''processed''),
      (''processingTime'', field statementData ''processingTime''),
      (''metadata'', js_or (field statementData ''metadata'') (Obj []))]"

definition saveStatement :: "backend \<Rightarrow> string \<Rightarrow> document \<Rightarrow> backend \<times> string result" where
  "saveStatement b userId statementData =
     createDocument b STATEMENTS (statement_record userId statementData)"

text \<open>The default of \<open>limitCount\<close> is 10: \<open>None\<close> is a call without the argument.\<close>

definition getUserStatements ::
  "backend \<Rightarrow> string \<Rightarrow> nat option \<Rightarrow> backend \<times> document list result" where
  "getUserStatements b userId limitCount =
     (case limit_of (case limitCount of None \<Rightarrow> 10 | Some n \<Rightarrow> n) of
        Inl e \<Rightarrow> (b, Failure (err_message e))
      | Inr lim \<Rightarrow>
          (case getDocs b (query_of STATEMENTS
                  [Where ''userId'' OpEq (Str userId),
                   OrderBy ''createdAt'' Desc,
                   lim]) of
             (b1, Inl e) \<Rightarrow> (b1, Failure (err_message e))
           | (b1, Inr querySnapshot) \<Rightarrow>
               (b1, Success (map (\<lambda>(i, d). with_id i d) querySnapshot))))"

text \<open>The query that \<open>getUserStatements\<close> issues, by name.\<close>

definition statements_query :: "string \<Rightarrow> nat \<Rightarrow> query" where
  "statements_query userId n =
     query_of STATEMENTS
       [Where ''userId'' OpEq (Str userId), OrderBy ''createdAt'' Desc, Limit n]"

text \<open>The object literal that \<open>saveTransactions\<close> hands to \<open>batch.set\<close>.\<close>

definition transaction_fields :: "string \<Rightarrow> document \<Rightarrow> (string \<times> jsval) list" where
  "transaction_fields statementId transaction =
     [(''statementId'', Str statementId),
      (''date'', field transaction ''date''),
      (''description'', field transaction ''description''),
      (''amount'', field transaction ''amount''),
      (''type'', field transaction ''type''),
      (''category'', field transaction ''category''),
      (''subcategory'', field transaction ''subcategory''),
      (''balance'', field transaction ''balance''),
      (''reference'', field transaction ''reference''),
      (''isRecurring'', js_or (field transaction ''isRecurring'') (Bool False)),
      (''tags'', js_or (field transaction ''tags'') (Arr [])),
      (''createdAt'', ServerTimestamp),
      (''updatedAt'', ServerTimestamp)]"

text \<open>
  The \<open>forEach\<close> of \<open>saveTransactions\<close>: a fresh reference and a \<open>batch.set\<close> each.
  A \<open>batch.set\<close> that throws ends the loop; the \<open>catch\<close> of \<open>saveTransactions\<close> then
  returns its message, and \<open>commit\<close> is never reached.
\<close>

fun batch_transactions ::
  "backend \<Rightarrow> string \<Rightarrow> document list \<Rightarrow> write_batch
     \<Rightarrow> backend \<times> (sdk_error + write_batch)" where
  "batch_transactions b statementId [] batch = (b, Inr batch)"
| "batch_transactions b statementId (transaction # ts) batch =
     (case new_doc_ref b TRANSACTIONS of
        (b1, transactionRef) \<Rightarrow>
          (case batch_set batch transactionRef (transaction_fields statementId transaction) of
             Inl e \<Rightarrow> (b1, Inl e)
           | Inr batch1 \<Rightarrow> batch_transactions b1 statementId ts batch1))"

definition saveTransactions ::
  "backend \<Rightarrow> string \<Rightarrow> document list \<Rightarrow> backend \<times> nat result" where
  "saveTransactions b statementId transactions =
     (case batch_transactions b statementId transactions [] of
        (b1, Inl e) \<Rightarrow> (b1, Failure (err_message e))
      | (b1, Inr batch) \<Rightarrow>
          (case commit b1 batch of
             (b2, Inl e) \<Rightarrow> (b2, Failure (err_message e))
           | (b2, Inr u) \<Rightarrow> (b2, Success (length transactions))))"

definition getTransactionsByStatement ::
  "backend \<Rightarrow> string \<Rightarrow> backend \<times> document list result" where
  "getTransactionsByStatement b statementId =
     (case getDocs b (query_of TRANSACTIONS
             [Where ''statementId'' OpEq (Str statementId),
              OrderBy ''date'' Desc]) of
        (b1, Inl e) \<Rightarrow> (b1, Failure (err_message e))
      | (b1, Inr querySnapshot) \<Rightarrow>
          (b1, Success (map (\<lambda>(i, d). with_id i d) querySnapshot)))"

text \<open>
  The \<open>filters\<close> argument of \<open>getUserTransactions\<close>. An absent \<open>category\<close> is
  \<open>Undefined\<close>; \<open>limit\<close> is a count or absent, and a count of zero is falsy, so
  that \<open>limit()\<close> is only reached with a positive number.
\<close>

record filters =
  category :: jsval
  limit :: "nat option"

definition user_transactions_query :: "jsval list \<Rightarrow> filters \<Rightarrow> query" where
  "user_transactions_query statementIds flt =
     (let q = query_of TRANSACTIONS
                [Where ''statementId'' OpIn (Arr (take 10 statementIds)),
                 OrderBy ''date'' Desc];
          q1 = (if truthy (category flt)
                then query_add q (Where ''category'' OpEq (category flt)) else q);
          q2 = (case limit flt of
                  Some n \<Rightarrow> if n \<noteq> 0 then query_add q1 (Limit n) else q1
                | None \<Rightarrow> q1)
      in q2)"

definition getUserTransactions ::
  "backend \<Rightarrow> string \<Rightarrow> filters \<Rightarrow> backend \<times> document list result" where
  "getUserTransactions b userId flt =
     (case getUserStatements b userId (Some 100) of
        (b1, Failure m) \<Rightarrow> (b1, Failure m)
      | (b1, Success stmts) \<Rightarrow>
          (let statementIds = map (\<lambda>stmt. field stmt ''id'') stmts in
           if length statementIds = 0 then (b1, Success [])
           else
             (case getDocs b1 (user_transactions_query statementIds flt) of
                (b2, Inl e) \<Rightarrow> (b2, Failure (err_message e))
              | (b2, Inr querySnapshot) \<Rightarrow>
                  (b2, Success (map (\<lambda>(i, d). with_id i d) querySnapshot)))))"

section \<open>Authentication operations\<close>

text \<open>
  \<open>handleFirebaseError\<close> lives in the configuration module; the operations take it as
  the parameter \<open>hfe\<close>.
\<close>

definition default_user_document :: "fb_user \<Rightarrow> document \<Rightarrow> document" where
  "default_user_document u additionalData = map_of
     [(''displayName'',
         js_or (js_string (displayName u))
           (js_or (field additionalData ''displayName'') (Str []))),
      (''email'', js_string (email u)),
      (''photoURL'', js_or (js_string (photoURL u)) (Str [])),
      (''createdAt'', ServerTimestamp),
      (''updatedAt'', ServerTimestamp),
      (''settings'', Obj
         [(''currency'', Str ''MUR''), (''language'', Str ''en''),
          (''theme'', Str ''light''), (''notifications'', Bool True)]),
      (''profile'', Obj
         [(''firstName'', Str []), (''lastName'', Str []), (''phone'', Str []),
          (''dateOfBirth'', Null), (''occupation'', Str []), (''bankAccounts'', Arr [])]),
      (''subscription'', Obj
         [(''plan'', Str ''free''), (''startDate'', ServerTimestamp), (''endDate'', Null),
          (''features'', Obj
             [(''maxStatements'', Num 10), (''maxExports'', Num 5),
              (''advancedAnalytics'', Bool False)])])]
     ++ additionalData"

text \<open>
  \<open>createUserDocument\<close> awaits \<open>getDoc\<close> outside any \<open>try\<close>: when that call throws,
  the promise is rejected with the SDK's error (\<open>Inl\<close>). A failure of \<open>setDoc\<close> is
  caught and logged. Otherwise it returns the reference, or \<open>undefined\<close> (\<open>None\<close>)
  when there is no user.
\<close>

definition createUserDocument ::
  "backend \<Rightarrow> fb_user option \<Rightarrow> document \<Rightarrow> backend \<times> (sdk_error + (string \<times> string) option)" where
  "createUserDocument b user additionalData =
     (case user of
        None \<Rightarrow> (b, Inr None)
      | Some u \<Rightarrow>
          (case getDoc b USERS (uid u) of
             (b1, Inl e) \<Rightarrow> (b1, Inl e)
           | (b1, Inr userDoc) \<Rightarrow>
               if \<not> snap_exists userDoc then
                 (case setDoc b1 USERS (uid u) (default_user_document u additionalData) of
                    (b2, r) \<Rightarrow> (b2, Inr (Some (USERS, uid u))))
               else (b1, Inr (Some (USERS, uid u)))))"

definition signUp ::
  "(sdk_error \<Rightarrow> string) \<Rightarrow> backend \<Rightarrow> string \<Rightarrow> string \<Rightarrow> string \<Rightarrow> backend \<times> document result" where
  "signUp hfe b em password dn =
     (case createUserWithEmailAndPassword b em password of
        (b1, Inl e) \<Rightarrow> (b1, Failure (hfe e))
      | (b1, Inr user0) \<Rightarrow>
          (case (if dn \<noteq> [] then updateProfile b1 user0 dn else (b1, Inr user0)) of
             (b2, Inl e) \<Rightarrow> (b2, Failure (hfe e))
           | (b2, Inr user) \<Rightarrow>
               (case createUserDocument b2 (Some user) [''displayName'' \<mapsto> Str dn] of
                  (b3, Inl e) \<Rightarrow> (b3, Failure (hfe e))
                | (b3, Inr r) \<Rightarrow>
                    (b3, Success (map_of
                       [(''uid'', Str (uid user)),
                        (''email'', js_string (email user)),
                        (''displayName'', js_or (js_string (displayName user)) (Str dn))])))))"

definition signIn ::
  "(sdk_error \<Rightarrow> string) \<Rightarrow> backend \<Rightarrow> string \<Rightarrow> string \<Rightarrow> backend \<times> document result" where
  "signIn hfe b em password =
     (case signInWithEmailAndPassword b em password of
        (b1, Inl e) \<Rightarrow> (b1, Failure (hfe e))
      | (b1, Inr user) \<Rightarrow>
          (b1, Success (map_of
             [(''uid'', Str (uid user)),
              (''email'', js_string (email user)),
              (''displayName'', js_string (displayName user))])))"

definition signInWithGoogle ::
  "(sdk_error \<Rightarrow> string) \<Rightarrow> backend \<Rightarrow> backend \<times> document result" where
  "signInWithGoogle hfe b =
     (case signInWithPopup b of
        (b1, Inl e) \<Rightarrow> (b1, Failure (hfe e))
      | (b1, Inr user) \<Rightarrow>
          (case createUserDocument b1 (Some user) Map.empty of
             (b2, Inl e) \<Rightarrow> (b2, Failure (hfe e))
           | (b2, Inr r) \<Rightarrow>
               (b2, Success (map_of
                  [(''uid'', Str (uid user)),
                   (''email'', js_string (email user)),
                   (''displayName'', js_string (displayName user)),
                   (''photoURL'', js_string (photoURL user))]))))"

definition logOut :: "(sdk_error \<Rightarrow> string) \<Rightarrow> backend \<Rightarrow> backend \<times> unit result" where
  "logOut hfe b =
     (case signOut b of
        (b1, Inl e) \<Rightarrow> (b1, Failure (hfe e))
      | (b1, Inr u) \<Rightarrow> (b1, Success ()))"

section \<open>Vocabulary of the properties\<close>

text \<open>
  What the claim about \<open>saveTransactions\<close> speaks of, in terms of the caller's
  transaction alone. \<open>copied_fields\<close> are the fields taken over as they are.
  A transaction is \<open>writable\<close> when the store accepts the value of every field its
  record carries: the copied ones, and \<open>isRecurring\<close> and \<open>tags\<close> where they are not
  replaced by their defaults. \<open>transaction_write statementId t d\<close> says that \<open>d\<close> is
  the record of \<open>t\<close> under the statement: the statement id, the copied fields with the
  transaction's values, \<open>isRecurring\<close> and \<open>tags\<close> with the transaction's value or
  else \<open>false\<close> and \<open>[]\<close>, the two server timestamps, and nothing else.
\<close>

definition copied_fields :: "string list" where
  "copied_fields =
     [''date'', ''description'', ''amount'', ''type'', ''category'', ''subcategory'',
      ''balance'', ''reference'']"

definition writable :: "document \<Rightarrow> bool" where
  "writable t \<longleftrightarrow>
     (\<forall>k \<in> set copied_fields. storable (field t k)) \<and>
     (truthy (field t ''isRecurring'') \<longrightarrow> storable (field t ''isRecurring'')) \<and>
     (truthy (field t ''tags'') \<longrightarrow> storable (field t ''tags''))"

definition transaction_write :: "string \<Rightarrow> document \<Rightarrow> document \<Rightarrow> bool" where
  "transaction_write statementId t d \<longleftrightarrow>
     d ''statementId'' = Some (Str statementId) \<and>
     (\<forall>k \<in> set copied_fields. d k = Some (field t k)) \<and>
     d ''isRecurring'' =
       Some (if truthy (field t ''isRecurring'') then field t ''isRecurring'' else Bool False) \<and>
     d ''tags'' = Some (if truthy (field t ''tags'') then field t ''tags'' else Arr []) \<and>
     d ''createdAt'' = Some ServerTimestamp \<and> d ''updatedAt'' = Some ServerTimestamp \<and>
     dom d = set ([''statementId''] @ copied_fields @
                  [''isRecurring'', ''tags'', ''createdAt'', ''updatedAt''])"

text \<open>
  The batch that \<open>saveTransactions\<close> builds from writable transactions: the \<open>k\<close>-th
  record under the \<open>k\<close>-th fresh id.
\<close>

definition planned_batch :: "backend \<Rightarrow> string \<Rightarrow> document list \<Rightarrow> write_batch" where
  "planned_batch b statementId transactions =
     map (\<lambda>(k, t). ((TRANSACTIONS, fresh_id b (next_id b + k)),
                     map_of (transaction_fields statementId t)))
       (enumerate 0 transactions)"

text \<open>
  The matching documents of a query in the query's order, before any limit cuts them;
  a list ordered by a field, greatest first; and the id that a returned object
  \<open>{ id: doc.id, ...doc.data() }\<close> carries: the document id, unless the document has an
  \<open>id\<close> field of its own.
\<close>

definition matching_docs ::
  "((string \<times> string) \<times> document) list \<Rightarrow> query \<Rightarrow> (string \<times> document) list" where
  "matching_docs ds q =
     order_docs (first_order (q_constraints q))
       (filter (\<lambda>(i, d). list_all (satisfies d) (q_constraints q))
          (collection_docs ds (q_collection q)))"

definition descending :: "string \<Rightarrow> (string \<times> document) list \<Rightarrow> bool" where
  "descending f xs =
     sorted_wrt (\<lambda>x y. fs_key (field (snd y) f) \<le> fs_key (field (snd x) f)) xs"

definition id_of :: "string \<times> document \<Rightarrow> jsval" where
  "id_of = (\<lambda>(i, d). case d ''id'' of Some v \<Rightarrow> v | None \<Rightarrow> Str i)"

text \<open>The \<open>id\<close> entries of a returned list of documents.\<close>

definition ids_of :: "document list result \<Rightarrow> jsval list" where
  "ids_of r = (case r of Success ds \<Rightarrow> map (\<lambda>d. field d ''id'') ds | Failure m \<Rightarrow> [])"

text \<open>
  The default settings, profile and subscription of a new user document, the
  subscription starting at the platform's time of the write.
\<close>

definition default_settings :: jsval where
  "default_settings = Obj
     [(''currency'', Str ''MUR''), (''language'', Str ''en''),
      (''theme'', Str ''light''), (''notifications'', Bool True)]"

definition default_profile :: jsval where
  "default_profile = Obj
     [(''firstName'', Str []), (''lastName'', Str []), (''phone'', Str []),
      (''dateOfBirth'', Null), (''occupation'', Str []), (''bankAccounts'', Arr [])]"

definition default_subscription :: "nat \<Rightarrow> jsval" where
  "default_subscription t = Obj
     [(''plan'', Str ''free''), (''startDate'', Time t), (''endDate'', Null),
      (''features'', Obj
         [(''maxStatements'', Num 10), (''maxExports'', Num 5),
          (''advancedAnalytics'', Bool False)])]"

definition has_default_fields :: "nat \<Rightarrow> document \<Rightarrow> bool" where
  "has_default_fields t d \<longleftrightarrow>
     d ''settings'' = Some default_settings \<and> d ''profile'' = Some default_profile \<and>
     d ''subscription'' = Some (default_subscription t)"

section \<open>Example platforms\<close>

definition quiet :: "nat \<Rightarrow> sdk_error option" where
  "quiet n = None"

definition auto_ids :: "nat \<Rightarrow> string" where
  "auto_ids n = ''doc'' @ replicate n CHR ''x''"

definition storage_example :: backend where
  "storage_example =
     \<lparr>docs = [],
      files = [''statements/u1/a.pdf'' \<mapsto>
        \<lparr>md_name = ''a.pdf'', md_size = 2048, md_contentType = ''application/pdf'',
         md_timeCreated = 3, md_fullPath = ''statements/u1/a.pdf''\<rparr>],
      accounts = [], google = None, clock = 7, next_id = 0, fresh_id = auto_ids,
      calls = [], faults = quiet\<rparr>"

definition docs_example :: backend where
  "docs_example =
     \<lparr>docs =
        [((''statements'', ''s1''),
            map_of [(''userId'', Str ''u1''), (''createdAt'', Time 1)]),
         ((''users'', ''u1''), map_of [(''email'', Str ''a@b.mu'')])],
      files = Map.empty, accounts = [], google = None, clock = 7, next_id = 0,
      fresh_id = auto_ids, calls = [], faults = quiet\<rparr>"

definition statement_of :: "string \<Rightarrow> nat \<Rightarrow> (string \<times> string) \<times> document" where
  "statement_of i t =
     ((''statements'', i),
      map_of [(''userId'', Str ''u1''), (''status'', Str ''processed''), (''createdAt'', Time t)])"

definition ledger_example :: backend where
  "ledger_example =
     \<lparr>docs =
        [statement_of ''s01'' 1, statement_of ''s02'' 2, statement_of ''s03'' 3,
         statement_of ''s04'' 4, statement_of ''s05'' 5, statement_of ''s06'' 6,
         statement_of ''s07'' 7, statement_of ''s08'' 8, statement_of ''s09'' 9,
         statement_of ''s10'' 10, statement_of ''s11'' 11,
         ((''transactions'', ''t1''),
            map_of [(''statementId'', Str ''s01''), (''date'', Str ''2024-01-05''),
                    (''amount'', Num 120)]),
         ((''transactions'', ''t2''),
            map_of [(''statementId'', Str ''s11''), (''date'', Str ''2024-11-02''),
                    (''amount'', Num 75)]),
         ((''transactions'', ''t3''),
            map_of [(''statementId'', Str ''s11''), (''date'', Str ''2024-11-20''),
                    (''amount'', Num 30)])],
      files = Map.empty, accounts = [], google = None, clock = 20, next_id = 0,
      fresh_id = auto_ids, calls = [], faults = quiet\<rparr>"

definition set_doc_fails :: "nat \<Rightarrow> sdk_error option" where
  "set_doc_fails n =
     (if n = 3 then Some (SdkError ''unavailable'' ''The service is currently unavailable'')
      else None)"

definition auth_example :: backend where
  "auth_example =
     \<lparr>docs = [], files = Map.empty, accounts = [],
      google = Some \<lparr>uid = ''g-42'', email = Some ''ravi@gmail.com'',
                     displayName = Some ''Ravi'', photoURL = Some ''https://lh3/ravi.png''\<rparr>,
      clock = 5, next_id = 0, fresh_id = auto_ids, calls = [], faults = quiet\<rparr>"

text \<open>Inputs with every field that the operations read.\<close>

definition march_statement :: document where
  "march_statement = map_of
     [(''fileName'', Str ''march.pdf''), (''fileSize'', Num 2048),
      (''fileUrl'', Str ''https://firebasestorage.googleapis.com/statements/u1/march.pdf''),
      (''bankName'', Str ''MCB''), (''accountNumber'', Str ''000123''),
      (''statementPeriod'', Str ''2024-03''), (''totalTransactions'', Num 2),
      (''status'', Str ''pending''), (''processingTime'', Num 840)]"

definition march_transactions :: "document list" where
  "march_transactions =
     [map_of [(''date'', Str ''2024-03-01''), (''description'', Str ''Salary''),
              (''amount'', Num 25000), (''type'', Str ''credit''),
              (''category'', Str ''income''), (''subcategory'', Str ''salary''),
              (''balance'', Num 31000), (''reference'', Str ''TRF-1'')],
      map_of [(''date'', Str ''2024-03-02''), (''description'', Str ''Rent''),
              (''amount'', Num 9000), (''type'', Str ''debit''),
              (''category'', Str ''housing''), (''subcategory'', Str ''rent''),
              (''balance'', Num 22000), (''reference'', Str ''SO-7'')]]"

definition cash_withdrawal :: document where
  "cash_withdrawal = map_of
     [(''date'', Str ''2024-03-05''), (''description'', Str ''ATM''),
      (''amount'', Num 2000), (''type'', Str ''debit''), (''category'', Str ''cash''),
      (''balance'', Num 20000), (''reference'', Str ''ATM-3'')]"

definition first_call_fails :: "nat \<Rightarrow> sdk_error option" where
  "first_call_fails n =
     (if n = 0 then Some (SdkError ''storage/unauthorized'' ''Permission denied'') else None)"

definition statement_pdf :: js_file where
  "statement_pdf =
     \<lparr>file_name = ''march.pdf'', file_size = 2048, file_type = ''application/pdf''\<rparr>"

section \<open>File storage: validation, upload, batched delete\<close>

lemma getDownloadURL_calls:
  "getDownloadURL b p = (b1, x) \<Longrightarrow> calls b1 = calls b @ [GetDownloadURL p]"
  by (auto simp: getDownloadURL_def invoke_def split: option.splits)

lemma getMetadata_calls:
  "getMetadata b p = (b1, x) \<Longrightarrow> calls b1 = calls b @ [GetMetadata p]"
  by (auto simp: getMetadata_def invoke_def split: option.splits)

lemma finish_upload_calls:
  "finish_upload b p h = (b1, x) \<Longrightarrow> \<exists>rest. calls b1 = calls b @ rest"
  by (auto simp: finish_upload_def split: prod.splits sum.splits
           dest!: getDownloadURL_calls getMetadata_calls)

lemma validateFile_NotValid:
  "validateFile file = NotValid msg \<Longrightarrow> msg \<noteq> []"
  by (auto simp: validateFile_def split: option.splits if_splits)

lemma validateFile_IsValid_iff:
  "validateFile file = IsValid \<longleftrightarrow>
     (\<exists>f. file = Some f \<and> file_size f \<le> 10 * 1024 * 1024 \<and>
        file_type f \<in> {''application/pdf'', ''image/jpeg'', ''image/jpg'',
                         ''image/png'', ''image/webp''})"
  by (auto simp: validateFile_def maxSize_def allowedTypes_def split: option.splits)

text \<open>
  C4. \<open>uploadFile\<close> validates before it uploads. When the file is absent, larger than
  10 MB (10 * 1024 * 1024 bytes) or of a content type outside the five allowed ones, it
  returns \<open>{ success: false, error }\<close> with a non-empty message and the platform is
  untouched: no SDK call is made, nothing is stored. Otherwise validation passes and the
  first SDK call is the upload of the file to the given path (the resumable upload when a
  progress callback was passed, the plain one when not).
\<close>

theorem uploadFile_validates_first:
  "uploadFile b file path onProgress = (b', r) \<Longrightarrow>
     (if (case file of None \<Rightarrow> True
          | Some f \<Rightarrow> file_size f > 10 * 1024 * 1024 \<or>
              file_type f \<notin> {''application/pdf'', ''image/jpeg'', ''image/jpg'',
                               ''image/png'', ''image/webp''})
      then b' = b \<and>
           (\<exists>msg. msg \<noteq> [] \<and> validateFile file = NotValid msg \<and> r = Fulfilled (Failure msg))
      else validateFile file = IsValid \<and>
           (\<exists>rest. calls b' = calls b @
              (if onProgress = None then UploadBytes path else UploadBytesResumable path) # rest))"
proof -
  assume run: "uploadFile b file path onProgress = (b', r)"
  show ?thesis
  proof (cases "validateFile file")
    case (NotValid msg)
    with run have "b' = b" "r = Fulfilled (Failure msg)"
      by (simp_all add: uploadFile_def)
    moreover have "msg \<noteq> []" using NotValid by (rule validateFile_NotValid)
    moreover have "\<not> validateFile file = IsValid" using NotValid by simp
    ultimately show ?thesis using NotValid
      unfolding validateFile_IsValid_iff by (auto split: option.splits)
  next
    case IsValid
    then obtain f where f: "file = Some f" "file_size f \<le> 10 * 1024 * 1024"
        "file_type f \<in> {''application/pdf'', ''image/jpeg'', ''image/jpg'',
                          ''image/png'', ''image/webp''}"
      unfolding validateFile_IsValid_iff by blast
    have "\<exists>rest. calls b' = calls b @
              (if onProgress = None then UploadBytes path else UploadBytesResumable path) # rest"
      using run IsValid f(1)
      by (auto simp: uploadFile_def uploadBytes_def uploadBytesResumable_def invoke_def
                     store_file_def
               split: option.splits prod.splits sum.splits dest!: finish_upload_calls)
    then show ?thesis using IsValid f by auto
  qed
qed

theorem uploadFile_validates_first_witness:
  "snd (uploadFile storage_example
         (Some \<lparr>file_name = ''big.pdf'', file_size = 10485761, file_type = ''application/pdf''\<rparr>)
         ''statements/u1/big.pdf'' None) = Fulfilled (Failure ''File size must be less than 10MB'') \<and>
   (\<exists>rest. calls (fst (uploadFile storage_example
         (Some \<lparr>file_name = ''ok.pdf'', file_size = 10485760, file_type = ''application/pdf''\<rparr>)
         ''statements/u1/ok.pdf'' (Some ProgressCallback))) =
       UploadBytesResumable ''statements/u1/ok.pdf'' # rest)"
  using uploadFile_validates_first [of storage_example
          "Some \<lparr>file_name = ''big.pdf'', file_size = 10485761, file_type = ''application/pdf''\<rparr>"
          "''statements/u1/big.pdf''" None, OF surjective_pairing]
        uploadFile_validates_first [of storage_example
          "Some \<lparr>file_name = ''ok.pdf'', file_size = 10485760, file_type = ''application/pdf''\<rparr>"
          "''statements/u1/ok.pdf''" "Some ProgressCallback", OF surjective_pairing]
  by (simp add: validateFile_def maxSize_def allowedTypes_def storage_example_def)

lemma deleteFile_calls:
  "deleteFile b p = (b1, x) \<Longrightarrow> calls b1 = calls b @ [DeleteObject p]"
  by (auto simp: deleteFile_def deleteObject_def invoke_def split: option.splits)

lemma allSettled_deleteFile_spec:
  "allSettled_deleteFile b ps = (b1, rs) \<Longrightarrow>
     length rs = length ps \<and> calls b1 = calls b @ map DeleteObject ps"
proof (induction ps arbitrary: b b1 rs)
  case Nil
  then show ?case by simp
next
  case (Cons p ps)
  obtain b2 r where step: "deleteFile b p = (b2, r)" by (cases "deleteFile b p")
  obtain b3 rs' where rest: "allSettled_deleteFile b2 ps = (b3, rs')"
    by (cases "allSettled_deleteFile b2 ps")
  have c2: "calls b2 = calls b @ [DeleteObject p]" using step by (rule deleteFile_calls)
  have "b1 = b3" "rs = Fulfilled r # rs'" using Cons.prems step rest by simp_all
  with Cons.IH[OF rest] c2 show ?case by simp
qed

lemma is_failed_iff: "is_failed = (\<lambda>r. \<not> is_successful r)"
  by (rule ext) (simp add: is_failed_def is_successful_def split: settled.splits result.splits)

lemma is_successful_iff: "is_successful = (\<lambda>r. r = Fulfilled (Success ()))"
  by (rule ext) (simp add: is_successful_def split: settled.splits result.splits)

text \<open>
  C3. For a list of N paths, \<open>deleteFiles\<close> makes one \<open>deleteFile\<close> call per path
  (N settled results; the SDK calls it adds to the log are exactly one \<open>deleteObject\<close>
  per path, in order) and returns success with a tally in which
  successful + failed = total = N, where \<open>successful\<close> counts the calls that returned
  \<open>{ success: true }\<close> and \<open>failed\<close> the others.
\<close>

theorem deleteFiles_tally:
  "deleteFiles b filePaths = (b', r) \<Longrightarrow>
     (\<exists>t. r = Success t \<and>
        successful t + failed t = total t \<and> total t = length filePaths \<and>
        length (snd (allSettled_deleteFile b filePaths)) = length filePaths \<and>
        calls b' = calls b @ map DeleteObject filePaths \<and>
        successful t =
          length (filter (\<lambda>x. x = Fulfilled (Success ()))
                    (snd (allSettled_deleteFile b filePaths))) \<and>
        failed t =
          length (filter (\<lambda>x. x \<noteq> Fulfilled (Success ()))
                    (snd (allSettled_deleteFile b filePaths))))"
proof -
  assume run: "deleteFiles b filePaths = (b', r)"
  obtain b1 results where all: "allSettled_deleteFile b filePaths = (b1, results)"
    by (cases "allSettled_deleteFile b filePaths")
  define t where "t = \<lparr>successful = length (filter is_successful results),
              failed = length (filter is_failed results), total = length filePaths\<rparr>"
  have r: "r = Success t" and b': "b' = b1"
    using run all by (simp_all add: deleteFiles_def t_def)
  have len: "length results = length filePaths"
    using allSettled_deleteFile_spec[OF all] by simp
  have cs: "calls b' = calls b @ map DeleteObject filePaths"
    using allSettled_deleteFile_spec[OF all] b' by simp
  have "length (filter is_successful results) + length (filter (\<lambda>x. \<not> is_successful x) results)
          = length results"
    by (rule sum_length_filter_compl)
  then have sum: "successful t + failed t = total t"
    by (simp add: t_def len is_failed_iff)
  have s: "successful t = length (filter (\<lambda>x. x = Fulfilled (Success ())) results)"
    by (simp add: t_def is_successful_iff)
  have f: "failed t = length (filter (\<lambda>x. x \<noteq> Fulfilled (Success ())) results)"
    by (simp add: t_def is_failed_iff is_successful_iff)
  show ?thesis using r sum len cs s f all by (simp add: t_def)
qed

theorem deleteFiles_tally_witness:
  "\<exists>t. snd (deleteFiles storage_example [''statements/u1/a.pdf'', ''statements/u1/b.pdf'']) =
         Success t \<and>
       successful t + failed t = total t \<and> total t = 2 \<and> successful t = 1 \<and> failed t = 1"
  using deleteFiles_tally [of storage_example
          "[''statements/u1/a.pdf'', ''statements/u1/b.pdf'']", OF surjective_pairing]
  by (auto simp: storage_example_def quiet_def deleteFile_def deleteObject_def invoke_def)

text \<open>
  C10. The operations are meant to turn every SDK failure into a fulfilled
  \<open>{ success: false, error }\<close>. \<open>uploadFile\<close> does so on its plain path, but with a
  progress callback the same SDK failure rejects the promise: the \<open>catch\<close> of
  \<open>uploadFile\<close> does not see a promise that is returned without being awaited.
\<close>

theorem uploadFile_progress_rejects:
  "snd (uploadFile (storage_example\<lparr>faults := first_call_fails\<rparr>) (Some statement_pdf)
          ''statements/u1/march.pdf'' (Some ProgressCallback))
     = Rejected (Failure ''Permission denied'') \<and>
   snd (uploadFile (storage_example\<lparr>faults := first_call_fails\<rparr>) (Some statement_pdf)
          ''statements/u1/march.pdf'' None)
     = Fulfilled (Failure ''Permission denied'')"
  by (simp add: uploadFile_def validateFile_def maxSize_def allowedTypes_def statement_pdf_def
        uploadBytes_def uploadBytesResumable_def invoke_def storage_example_def
        first_call_fails_def)

section \<open>Document store: read, statements, transaction batches\<close>

text \<open>
  C6, as stated: when the document exists, \<open>getDocument\<close> returns data that contains the
  document's id. A stored document that has a field named \<open>id\<close> of its own refutes it:
  \<open>{ id: docSnap.id, ...docSnap.data() }\<close> lets the stored field win. Here
  \<open>createDocument\<close> stores such a document under the automatic id \<open>doc\<close>, and
  \<open>getDocument\<close> of that id returns \<open>legacy-7\<close> as \<open>data.id\<close>.
\<close>

theorem getDocument_id_counterexample:
  "payload (snd (createDocument docs_example ''statements''
      (map_of [(''id'', Str ''legacy-7''), (''userId'', Str ''u1'')]))) = Some ''doc'' \<and>
   map_option (\<lambda>data. data ''id'')
     (payload (snd (getDocument
        (fst (createDocument docs_example ''statements''
           (map_of [(''id'', Str ''legacy-7''), (''userId'', Str ''u1'')])))
        ''statements'' ''doc'')))
     = Some (Some (Str ''legacy-7''))"
  by code_simp

text \<open>
  C6, amended. \<open>getDocument\<close> returns the message of the SDK error when the read fails;
  otherwise, when the document exists, \<open>{ success: true, data }\<close> where \<open>data\<close> is the
  document's fields on top of \<open>id\<close>: every field of the document is in \<open>data\<close>, and
  \<open>data.id\<close> is the document's id unless the document has its own \<open>id\<close> field; and
  when it does not exist, \<open>{ success: false, error: 'Document not found' }\<close>.
\<close>

theorem getDocument_result:
  "getDocument b collectionName docId = (b', r) \<Longrightarrow>
     r = (case faults b (length (calls b)) of
            Some e \<Rightarrow> Failure (err_message e)
          | None \<Rightarrow>
              (case map_of (docs b) (collectionName, docId) of
                 Some d \<Rightarrow> Success ([''id'' \<mapsto> Str docId] ++ d)
               | None \<Rightarrow> Failure ''Document not found'')) \<and>
     (\<forall>d data. map_of (docs b) (collectionName, docId) = Some d \<longrightarrow> r = Success data \<longrightarrow>
        (\<forall>k v. d k = Some v \<longrightarrow> data k = Some v) \<and>
        (d ''id'' = None \<longrightarrow> data ''id'' = Some (Str docId)))"
  by (auto simp: getDocument_def getDoc_def invoke_def with_id_def map_add_def
           split: option.splits)

theorem getDocument_result_witness:
  "snd (getDocument docs_example ''users'' ''u1'') =
     Success ([''id'' \<mapsto> Str ''u1''] ++ map_of [(''email'', Str ''a@b.mu'')]) \<and>
   snd (getDocument docs_example ''users'' ''u2'') = Failure ''Document not found''"
  using getDocument_result [of docs_example "''users''" "''u1''", OF surjective_pairing]
        getDocument_result [of docs_example "''users''" "''u2''", OF surjective_pairing]
  by (simp add: docs_example_def quiet_def)

lemma statement_record_status:
  "statement_record userId statementData ''status'' = Some (Str ''processed'')"
  by (simp add: statement_record_def)

text \<open>
  C8. Whatever the caller passes in \<open>statementData\<close>, \<open>saveStatement\<close> either fails and
  stores nothing, or stores exactly one statement record, whose status is
  \<open>'processed'\<close>.
\<close>

theorem saveStatement_status_processed:
  "saveStatement b userId statementData = (b', r) \<Longrightarrow>
     (case r of
        Failure m \<Rightarrow> docs b' = docs b
      | Success i \<Rightarrow>
          (\<exists>d. docs b' = AList.update (STATEMENTS, i) d (docs b) \<and>
               map_of (docs b') (STATEMENTS, i) = Some d \<and>
               d ''status'' = Some (Str ''processed'')))"
  by (auto simp: saveStatement_def createDocument_def addDoc_def invoke_def stamp_doc_def
        statement_record_def update_conv' split: option.splits)

theorem saveStatement_status_processed_witness:
  "\<exists>i d. snd (saveStatement docs_example ''u1'' march_statement) = Success i \<and>
         map_of (docs (fst (saveStatement docs_example ''u1'' march_statement))) (STATEMENTS, i)
           = Some d \<and>
         march_statement ''status'' = Some (Str ''pending'') \<and>
         d ''status'' = Some (Str ''processed'')"
  using saveStatement_status_processed [of docs_example "''u1''" march_statement,
          OF surjective_pairing]
  by (auto simp: saveStatement_def createDocument_def addDoc_def invoke_def docs_example_def
        quiet_def march_statement_def split: result.splits)

lemma enumerate_Suc_shift:
  "map f (enumerate (Suc n) xs) = map (\<lambda>(k, x). f (Suc k, x)) (enumerate n xs)"
  by (induction xs arbitrary: n) auto

lemma transaction_fields_storable:
  "list_all (\<lambda>(k, v). storable v) (transaction_fields sid t) \<longleftrightarrow> writable t"
  by (auto simp: transaction_fields_def writable_def copied_fields_def js_or_def storable_def)

lemma transaction_fields_write:
  "transaction_write sid t (map_of (transaction_fields sid t))"
  by (auto simp: transaction_write_def transaction_fields_def copied_fields_def js_or_def
           split: if_splits)

lemma planned_batch_Cons:
  "planned_batch b sid (t # ts) =
     ((TRANSACTIONS, fresh_id b (next_id b)), map_of (transaction_fields sid t)) #
     planned_batch (b\<lparr>next_id := Suc (next_id b)\<rparr>) sid ts"
  by (simp add: planned_batch_def enumerate_Suc_shift)

lemma batch_transactions_writable:
  "list_all writable ts \<Longrightarrow>
     batch_transactions b sid ts acc =
       (b\<lparr>next_id := next_id b + length ts\<rparr>, Inr (acc @ planned_batch b sid ts))"
proof (induction ts arbitrary: b acc)
  case Nil
  show ?case by (simp add: planned_batch_def)
next
  case (Cons t ts)
  then have t: "writable t" and ts: "list_all writable ts" by simp_all
  show ?case
    using t by (simp add: new_doc_ref_def batch_set_def transaction_fields_storable
                  Cons.IH [OF ts] planned_batch_Cons)
qed

lemma batch_transactions_refused:
  "\<not> list_all writable ts \<Longrightarrow> batch_transactions b sid ts acc = (b1, x) \<Longrightarrow>
     x = Inl unsupported_value \<and> docs b1 = docs b \<and> calls b1 = calls b"
proof (induction ts arbitrary: b acc)
  case Nil
  then show ?case by simp
next
  case (Cons t ts)
  show ?case
  proof (cases "writable t")
    case False
    with Cons.prems(2) show ?thesis
      by (auto simp: new_doc_ref_def batch_set_def transaction_fields_storable)
  next
    case True
    with Cons.prems(1) have rest: "\<not> list_all writable ts" by simp
    let ?b = "b\<lparr>next_id := Suc (next_id b)\<rparr>"
    let ?acc = "acc @ [((TRANSACTIONS, fresh_id b (next_id b)), map_of (transaction_fields sid t))]"
    have "batch_transactions ?b sid ts ?acc = (b1, x)"
      using Cons.prems(2) True
      by (simp add: new_doc_ref_def batch_set_def transaction_fields_storable)
    from Cons.IH [OF rest this] show ?thesis by simp
  qed
qed

lemma length_planned_batch: "length (planned_batch b sid ts) = length ts"
  by (simp add: planned_batch_def)

lemma planned_batch_nth:
  "k < length ts \<Longrightarrow>
     planned_batch b sid ts ! k =
       ((TRANSACTIONS, fresh_id b (next_id b + k)), map_of (transaction_fields sid (ts ! k)))"
  by (simp add: planned_batch_def nth_enumerate_eq)

lemma map_of_fold_update:
  "distinct (map fst ws) \<Longrightarrow> (k, d) \<in> set ws \<Longrightarrow>
     map_of (fold (\<lambda>(k, d). AList.update k (g d)) ws ds) k = Some (g d)"
proof (induction ws arbitrary: ds)
  case Nil
  then show ?case by simp
next
  case (Cons w ws)
  obtain k' d' where w: "w = (k', d')" by (cases w)
  show ?case
  proof (cases "(k, d) \<in> set ws")
    case True
    with Cons w show ?thesis by simp
  next
    case False
    with Cons.prems w have eq: "k' = k" "d' = d" and notin: "k \<notin> fst ` set ws" by auto
    have keep: "\<And>ds. k \<notin> fst ` set ws \<Longrightarrow>
             map_of (fold (\<lambda>(k, d). AList.update k (g d)) ws ds) k = map_of ds k"
      by (induction ws) (auto simp: update_conv')
    show ?thesis using notin by (simp add: w eq keep update_conv')
  qed
qed

lemma map_fst_planned_batch:
  "map fst (planned_batch b sid ts) =
     map (\<lambda>k. (TRANSACTIONS, fresh_id b (next_id b + k))) [0..<length ts]"
  by (rule nth_equalityI) (simp_all add: length_planned_batch planned_batch_nth)

lemma distinct_planned_batch:
  assumes "inj_on (fresh_id b) {next_id b ..< next_id b + length ts}"
  shows "distinct (map fst (planned_batch b sid ts))"
proof -
  have "inj_on (\<lambda>k. (TRANSACTIONS, fresh_id b (next_id b + k))) {0..<length ts}"
  proof (rule inj_onI)
    fix x y
    assume x: "x \<in> {0..<length ts}" and y: "y \<in> {0..<length ts}"
      and eq: "(TRANSACTIONS, fresh_id b (next_id b + x)) = (TRANSACTIONS, fresh_id b (next_id b + y))"
    have "next_id b + x = next_id b + y"
      using x y eq by (intro inj_onD [OF assms]) auto
    then show "x = y" by simp
  qed
  then show ?thesis
    by (simp add: map_fst_planned_batch distinct_map)
qed

text \<open>
  C5. When the store accepts every transaction's record, \<open>saveTransactions\<close> makes a
  single SDK call, the commit of one batch that holds one write per transaction: the
  \<open>k\<close>-th write goes to the \<open>k\<close>-th fresh id of the transactions collection and is the
  record of the \<open>k\<close>-th transaction, with the given statement id. When the commit fails,
  the result is its message and no document is stored; when it does not, the result is
  \<open>{ success: true, count }\<close> with \<open>count\<close> the length of the input list and the store
  is the old one with all the writes applied, so that, the fresh ids being distinct, each
  transaction's record is found under its id. When some transaction's record is refused
  (a value is \<open>undefined\<close>), the result is a failure, no SDK call is made and nothing is
  stored.
\<close>

theorem saveTransactions_atomic:
  "saveTransactions b statementId transactions = (b', r) \<Longrightarrow>
     (if list_all writable transactions then
        calls b' = calls b @ [BatchCommit (length transactions)] \<and>
        (\<exists>writes.
           length writes = length transactions \<and>
           (\<forall>k < length transactions.
              fst (writes ! k) = (TRANSACTIONS, fresh_id b (next_id b + k)) \<and>
              transaction_write statementId (transactions ! k) (snd (writes ! k))) \<and>
           (case faults b (length (calls b)) of
              Some e \<Rightarrow> r = Failure (err_message e) \<and> docs b' = docs b
            | None \<Rightarrow>
                r = Success (length transactions) \<and>
                docs b' = apply_writes (clock b) writes (docs b) \<and>
                (inj_on (fresh_id b) {next_id b ..< next_id b + length transactions} \<longrightarrow>
                   (\<forall>k < length transactions.
                      map_of (docs b') (TRANSACTIONS, fresh_id b (next_id b + k)) =
                        Some (stamp_doc (clock b) (snd (writes ! k)))))))
      else calls b' = calls b \<and> docs b' = docs b \<and> (\<exists>m. r = Failure m))"
proof (cases "list_all writable transactions")
  case False
  assume run: "saveTransactions b statementId transactions = (b', r)"
  obtain b1 x where bt: "batch_transactions b statementId transactions [] = (b1, x)"
    by (cases "batch_transactions b statementId transactions []")
  from batch_transactions_refused [OF False bt]
  have x: "x = Inl unsupported_value" and same: "docs b1 = docs b" "calls b1 = calls b"
    by simp_all
  from run bt x have "b' = b1" "r = Failure (err_message unsupported_value)"
    by (simp_all add: saveTransactions_def)
  with same False show ?thesis by simp
next
  case True
  assume run: "saveTransactions b statementId transactions = (b', r)"
  let ?writes = "planned_batch b statementId transactions"
  let ?b1 = "b\<lparr>next_id := next_id b + length transactions\<rparr>"
  have run': "(case commit ?b1 ?writes of
                 (b2, Inl e) \<Rightarrow> (b2, Failure (err_message e))
               | (b2, Inr u) \<Rightarrow> (b2, Success (length transactions))) = (b', r)"
    using run by (simp add: saveTransactions_def batch_transactions_writable [OF True])
  have calls: "calls b' = calls b @ [BatchCommit (length transactions)]"
    using run' by (auto simp: commit_def invoke_def length_planned_batch split: option.splits)
  have records: "\<forall>k < length transactions.
          fst (?writes ! k) = (TRANSACTIONS, fresh_id b (next_id b + k)) \<and>
          transaction_write statementId (transactions ! k) (snd (?writes ! k))"
    by (simp add: planned_batch_nth transaction_fields_write)
  have outcome: "case faults b (length (calls b)) of
              Some e \<Rightarrow> r = Failure (err_message e) \<and> docs b' = docs b
            | None \<Rightarrow>
                r = Success (length transactions) \<and>
                docs b' = apply_writes (clock b) ?writes (docs b) \<and>
                (inj_on (fresh_id b) {next_id b ..< next_id b + length transactions} \<longrightarrow>
                   (\<forall>k < length transactions.
                      map_of (docs b') (TRANSACTIONS, fresh_id b (next_id b + k)) =
                        Some (stamp_doc (clock b) (snd (?writes ! k)))))"
  proof (cases "faults b (length (calls b))")
    case (Some e)
    with run' show ?thesis by (auto simp: commit_def invoke_def)
  next
    case None
    with run' have r: "r = Success (length transactions)"
      and d: "docs b' = apply_writes (clock b) ?writes (docs b)"
      by (auto simp: commit_def invoke_def)
    have stored: "map_of (docs b') (TRANSACTIONS, fresh_id b (next_id b + k)) =
                    Some (stamp_doc (clock b) (snd (?writes ! k)))"
      if inj: "inj_on (fresh_id b) {next_id b ..< next_id b + length transactions}"
        and k: "k < length transactions" for k
    proof -
      have "?writes ! k \<in> set ?writes" using k by (simp add: length_planned_batch)
      then have mem: "((TRANSACTIONS, fresh_id b (next_id b + k)), snd (?writes ! k)) \<in> set ?writes"
        using k by (simp add: planned_batch_nth)
      show ?thesis
        unfolding d apply_writes_def
        by (rule map_of_fold_update [OF distinct_planned_batch [OF inj] mem])
    qed
    from None r d stored show ?thesis by simp
  qed
  have "\<exists>writes.
           length writes = length transactions \<and>
           (\<forall>k < length transactions.
              fst (writes ! k) = (TRANSACTIONS, fresh_id b (next_id b + k)) \<and>
              transaction_write statementId (transactions ! k) (snd (writes ! k))) \<and>
           (case faults b (length (calls b)) of
              Some e \<Rightarrow> r = Failure (err_message e) \<and> docs b' = docs b
            | None \<Rightarrow>
                r = Success (length transactions) \<and>
                docs b' = apply_writes (clock b) writes (docs b) \<and>
                (inj_on (fresh_id b) {next_id b ..< next_id b + length transactions} \<longrightarrow>
                   (\<forall>k < length transactions.
                      map_of (docs b') (TRANSACTIONS, fresh_id b (next_id b + k)) =
                        Some (stamp_doc (clock b) (snd (writes ! k))))))"
    using length_planned_batch [of b statementId transactions] records outcome
    by (intro exI [of _ ?writes] conjI)
  with True calls show ?thesis by simp
qed

lemma inj_auto_ids: "inj_on auto_ids A"
  by (auto simp: inj_on_def auto_ids_def)

theorem saveTransactions_atomic_witness:
  "snd (saveTransactions docs_example ''s1'' march_transactions) = Success 2 \<and>
   (\<exists>d. map_of (docs (fst (saveTransactions docs_example ''s1'' march_transactions)))
            (TRANSACTIONS, ''docx'') = Some d \<and>
        d ''statementId'' = Some (Str ''s1'') \<and> d ''description'' = Some (Str ''Rent'') \<and>
        d ''amount'' = Some (Num 9000) \<and> d ''isRecurring'' = Some (Bool False) \<and>
        d ''createdAt'' = Some (Time 7)) \<and>
   snd (saveTransactions docs_example ''s1'' [cash_withdrawal]) =
     Failure (err_message unsupported_value) \<and>
   calls (fst (saveTransactions docs_example ''s1'' [cash_withdrawal])) = []"
proof -
  have w: "list_all writable march_transactions"
    by (simp add: march_transactions_def writable_def copied_fields_def field_def storable_def)
  have nw: "\<not> list_all writable [cash_withdrawal]"
    by (simp add: cash_withdrawal_def writable_def copied_fields_def field_def storable_def)
  have quiet: "faults docs_example (length (calls docs_example)) = None"
    by (simp add: docs_example_def quiet_def)
  have inj: "inj_on (fresh_id docs_example)
               {next_id docs_example ..< next_id docs_example + length march_transactions}"
    by (simp add: docs_example_def inj_auto_ids)
  have eqs: "fresh_id docs_example (next_id docs_example + 1) = ''docx''"
            "clock docs_example = 7" "calls docs_example = []"
            "length march_transactions = 2"
    by (simp_all add: docs_example_def auto_ids_def march_transactions_def)
  have rent: "march_transactions ! 1 = map_of
       [(''date'', Str ''2024-03-02''), (''description'', Str ''Rent''),
        (''amount'', Num 9000), (''type'', Str ''debit''),
        (''category'', Str ''housing''), (''subcategory'', Str ''rent''),
        (''balance'', Num 22000), (''reference'', Str ''SO-7'')]"
    by (simp add: march_transactions_def)
  note th = saveTransactions_atomic [of docs_example "''s1''" march_transactions,
              OF surjective_pairing]
  from th obtain writes where
    rec: "\<forall>k < length march_transactions.
              fst (writes ! k) =
                (TRANSACTIONS, fresh_id docs_example (next_id docs_example + k)) \<and>
              transaction_write ''s1'' (march_transactions ! k) (snd (writes ! k))"
    and ok: "snd (saveTransactions docs_example ''s1'' march_transactions) =
               Success (length march_transactions)"
    and st: "\<forall>k < length march_transactions.
               map_of (docs (fst (saveTransactions docs_example ''s1'' march_transactions)))
                 (TRANSACTIONS, fresh_id docs_example (next_id docs_example + k)) =
               Some (stamp_doc (clock docs_example) (snd (writes ! k)))"
    unfolding if_P [OF w] quiet option.case using inj by blast
  have k: "(1::nat) < length march_transactions" by (simp add: eqs)
  from rec k have tw: "transaction_write ''s1'' (march_transactions ! 1) (snd (writes ! 1))"
    by blast
  from st k have found:
    "map_of (docs (fst (saveTransactions docs_example ''s1'' march_transactions)))
       (TRANSACTIONS, ''docx'') = Some (stamp_doc 7 (snd (writes ! 1)))"
    unfolding eqs [symmetric] by blast
  have fields: "stamp_doc 7 (snd (writes ! 1)) ''statementId'' = Some (Str ''s1'')"
      "stamp_doc 7 (snd (writes ! 1)) ''description'' = Some (Str ''Rent'')"
      "stamp_doc 7 (snd (writes ! 1)) ''amount'' = Some (Num 9000)"
      "stamp_doc 7 (snd (writes ! 1)) ''isRecurring'' = Some (Bool False)"
      "stamp_doc 7 (snd (writes ! 1)) ''createdAt'' = Some (Time 7)"
    using tw unfolding rent
    by (simp_all add: transaction_write_def copied_fields_def stamp_doc_def field_def)
  note th2 = saveTransactions_atomic [of docs_example "''s1''" "[cash_withdrawal]",
               OF surjective_pairing]
  from th2 have refused:
    "calls (fst (saveTransactions docs_example ''s1'' [cash_withdrawal])) = calls docs_example"
    unfolding if_not_P [OF nw] by blast
  have msg: "snd (saveTransactions docs_example ''s1'' [cash_withdrawal]) =
               Failure (err_message unsupported_value)"
    by (simp add: saveTransactions_def new_doc_ref_def batch_set_def
          transaction_fields_storable nw [simplified])
  from ok found fields refused msg show ?thesis by (simp add: eqs)
qed


section \<open>User documents\<close>

text \<open>
  C9. When a user document already exists under the user's uid, \<open>createUserDocument\<close>
  only reads: whatever the additional data, the platform is left as it was but for the
  logged read, the stored documents are unchanged, and so they are after one more call.
\<close>

theorem createUserDocument_existing_unchanged:
  "map_of (docs b) (USERS, uid u) \<noteq> None \<Longrightarrow>
     createUserDocument b (Some u) additionalData = (b', r) \<Longrightarrow>
     b' = b\<lparr>calls := calls b @ [GetDoc USERS (uid u)]\<rparr> \<and> docs b' = docs b \<and>
     docs (fst (createUserDocument b' (Some u) moreData)) = docs b"
  by (auto simp: createUserDocument_def getDoc_def invoke_def snap_exists_def
           split: option.splits)

theorem createUserDocument_existing_unchanged_witness:
  "map_of (docs docs_example) (USERS, ''u1'') \<noteq> None \<and>
   docs (fst (createUserDocument docs_example
          (Some \<lparr>uid = ''u1'', email = Some ''a@b.mu'', displayName = None, photoURL = None\<rparr>)
          [''displayName'' \<mapsto> Str ''Asha''])) = docs docs_example"
  using createUserDocument_existing_unchanged [of docs_example
          "\<lparr>uid = ''u1'', email = Some ''a@b.mu'', displayName = None, photoURL = None\<rparr>"
          "[''displayName'' \<mapsto> Str ''Asha'']", OF _ surjective_pairing]
  by (simp add: docs_example_def USERS_def)


section \<open>Queries\<close>

lemma set_collection_docs:
  "set (collection_docs ds c) = {(i, d). ((c, i), d) \<in> set ds}"
  by (auto simp: collection_docs_def image_iff)

lemma set_cut_subset: "set (cut lim xs) \<subseteq> set xs"
  by (auto simp: cut_def split: option.splits dest: in_set_takeD)

lemma set_order_docs: "set (order_docs ord ds) = set ds"
  by (auto simp: order_docs_def split: option.splits direction.splits)

lemma length_order_docs: "length (order_docs ord ds) = length ds"
  by (auto simp: order_docs_def split: option.splits direction.splits)

lemma sorted_wrt_cut: "sorted_wrt R xs \<Longrightarrow> sorted_wrt R (cut lim xs)"
  by (auto simp: cut_def sorted_wrt_take split: option.splits)

lemma lex_fst_mono: "(p :: 'a::linorder \<times> 'b::linorder) \<le> q \<Longrightarrow> fst p \<le> fst q"
  by (auto simp: less_eq_prod_def)

lemma sort_key_of_fst_mono:
  "sort_key_of f y \<le> sort_key_of f x \<Longrightarrow> fs_key (field (snd y) f) \<le> fs_key (field (snd x) f)"
  using lex_fst_mono [of "sort_key_of f y" "sort_key_of f x"]
  by (simp add: sort_key_of_def case_prod_unfold)

lemma order_docs_desc_sorted:
  "sorted_wrt (\<lambda>x y. fs_key (field (snd y) f) \<le> fs_key (field (snd x) f))
     (order_docs (Some (f, Desc)) ds)"
proof -
  have "sorted (map (sort_key_of f) (sort_key (sort_key_of f) ds))"
    by (rule sorted_sort_key)
  then have "sorted_wrt (\<lambda>x y. sort_key_of f x \<le> sort_key_of f y) (sort_key (sort_key_of f) ds)"
    by (simp add: sorted_map)
  then have "sorted_wrt (\<lambda>x y. sort_key_of f y \<le> sort_key_of f x)
               (rev (sort_key (sort_key_of f) ds))"
    by (simp add: sorted_wrt_rev)
  then have "sorted_wrt (\<lambda>x y. fs_key (field (snd y) f) \<le> fs_key (field (snd x) f))
               (rev (sort_key (sort_key_of f) ds))"
    by (rule sorted_wrt_mono_rel [rotated]) (rule sort_key_of_fst_mono)
  then show ?thesis by (simp add: order_docs_def)
qed

lemma run_query_desc_sorted:
  "first_order (q_constraints q) = Some (f, Desc) \<Longrightarrow>
     sorted_wrt (\<lambda>x y. fs_key (field (snd y) f) \<le> fs_key (field (snd x) f)) (run_query ds q)"
  by (simp add: run_query_def sorted_wrt_cut order_docs_desc_sorted)

lemma set_run_query_subset:
  "set (run_query ds q) \<subseteq>
     {(i, d). ((q_collection q, i), d) \<in> set ds \<and> list_all (satisfies d) (q_constraints q)}"
  using set_cut_subset by (fastforce simp: run_query_def set_order_docs set_collection_docs)

lemma set_run_query_no_limit:
  "last_limit (q_constraints q) = None \<Longrightarrow>
   set (run_query ds q) =
     {(i, d). ((q_collection q, i), d) \<in> set ds \<and> list_all (satisfies d) (q_constraints q)}"
  by (auto simp: run_query_def cut_def set_order_docs set_collection_docs)

lemma length_run_query_no_limit:
  "last_limit (q_constraints q) = None \<Longrightarrow>
   length (run_query ds q) =
     length (filter (\<lambda>(k, d). fst k = q_collection q \<and> list_all (satisfies d) (q_constraints q)) ds)"
  by (simp add: run_query_def cut_def length_order_docs collection_docs_def filter_map o_def
        case_prod_unfold conj_commute)

lemma length_run_query_limit:
  "last_limit (q_constraints q) = Some n \<Longrightarrow> length (run_query ds q) \<le> n"
  by (simp add: run_query_def cut_def)

lemma getDocs_cases:
  "getDocs b q = (b1, x) \<Longrightarrow>
     b1 = b\<lparr>calls := calls b @ [GetDocs q]\<rparr> \<and>
     x = (case faults b (length (calls b)) of
            Some e \<Rightarrow> Inl e
          | None \<Rightarrow> Inr (run_query (docs b) q))"
  by (auto simp: getDocs_def invoke_def split: option.splits)

lemma transactions_query_set:
  "set (run_query ds (query_of TRANSACTIONS
          [Where ''statementId'' OpEq (Str sid), OrderBy ''date'' Desc])) =
     {(i, d). ((TRANSACTIONS, i), d) \<in> set ds \<and> d ''statementId'' = Some (Str sid) \<and>
              d ''date'' \<noteq> None}"
  by (subst set_run_query_no_limit) (auto simp: query_of_def)

lemma transactions_query_length:
  "length (run_query ds (query_of TRANSACTIONS
          [Where ''statementId'' OpEq (Str sid), OrderBy ''date'' Desc])) =
     length (filter (\<lambda>(k, d). fst k = TRANSACTIONS \<and> d ''statementId'' = Some (Str sid) \<and>
                       d ''date'' \<noteq> None) ds)"
  by (subst length_run_query_no_limit) (auto simp: query_of_def intro!: arg_cong[where f=length] filter_cong)

lemma transactions_query_sorted:
  "sorted_wrt (\<lambda>x y. fs_key (field (snd y) ''date'') \<le> fs_key (field (snd x) ''date''))
     (run_query ds (query_of TRANSACTIONS
          [Where ''statementId'' OpEq (Str sid), OrderBy ''date'' Desc]))"
  by (rule run_query_desc_sorted) (simp add: query_of_def)

lemma statements_query_set:
  "set (run_query ds (statements_query usr n)) \<subseteq>
     {(i, d). ((STATEMENTS, i), d) \<in> set ds \<and> d ''userId'' = Some (Str usr) \<and>
              d ''createdAt'' \<noteq> None}"
  using set_run_query_subset [of ds "statements_query usr n"]
  by (auto simp: query_of_def statements_query_def)

lemma statements_query_length:
  "length (run_query ds (statements_query usr n)) \<le> n"
  by (rule length_run_query_limit) (simp add: query_of_def statements_query_def)

lemma statements_query_sorted:
  "sorted_wrt (\<lambda>x y. fs_key (field (snd y) ''createdAt'') \<le> fs_key (field (snd x) ''createdAt''))
     (run_query ds (statements_query usr n))"
  by (rule run_query_desc_sorted) (simp add: query_of_def statements_query_def)

text \<open>
  C7, as stated: \<open>getTransactionsByStatement\<close> returns exactly the transactions whose
  \<open>statementId\<close> equals its argument. Here \<open>createDocument\<close> stores, under the
  automatic id \<open>doc\<close>, a transaction of statement \<open>s11\<close> that has no \<open>date\<close> field;
  the query for \<open>s11\<close>, ordered by \<open>date\<close>, still returns \<open>t3\<close> and \<open>t2\<close> only.
\<close>

theorem getTransactionsByStatement_counterexample:
  "payload (snd (createDocument ledger_example TRANSACTIONS
      (map_of [(''statementId'', Str ''s11''), (''amount'', Num 9)]))) = Some ''doc'' \<and>
   map_option (\<lambda>d. (d ''statementId'', d ''date''))
     (map_of (docs (fst (createDocument ledger_example TRANSACTIONS
        (map_of [(''statementId'', Str ''s11''), (''amount'', Num 9)]))))
      (TRANSACTIONS, ''doc'')) = Some (Some (Str ''s11''), None) \<and>
   ids_of (snd (getTransactionsByStatement
      (fst (createDocument ledger_example TRANSACTIONS
         (map_of [(''statementId'', Str ''s11''), (''amount'', Num 9)])))
      ''s11'')) = [Str ''t3'', Str ''t2'']"
  by code_simp

text \<open>
  C7, amended. Unless the SDK call fails (the result is then its message),
  \<open>getTransactionsByStatement\<close> returns, each as \<open>{ id, ...fields }\<close>, exactly the
  documents of the transactions collection that have a \<open>date\<close> field and whose
  \<open>statementId\<close> equals the argument, once each, ordered by \<open>date\<close> descending; and
  \<open>getUserStatements\<close> returns at most \<open>limitCount\<close> (10 when the argument is left out)
  documents of the statements collection, all with a \<open>createdAt\<close> field and with
  \<open>userId\<close> equal to the argument, ordered by \<open>createdAt\<close> descending (a
  \<open>limitCount\<close> of 0 is refused by \<open>limit()\<close> and gives a failure).
\<close>

theorem queries_filter_and_order:
  "(getTransactionsByStatement b statementId = (b1, r1) \<longrightarrow>
      (case faults b (length (calls b)) of
         Some e \<Rightarrow> r1 = Failure (err_message e)
       | None \<Rightarrow>
           (\<exists>snap. r1 = Success (map (\<lambda>(i, d). with_id i d) snap) \<and>
              set snap = {(i, d). ((TRANSACTIONS, i), d) \<in> set (docs b) \<and>
                            d ''statementId'' = Some (Str statementId) \<and> d ''date'' \<noteq> None} \<and>
              length snap =
                length (filter (\<lambda>(k, d). fst k = TRANSACTIONS \<and>
                          d ''statementId'' = Some (Str statementId) \<and> d ''date'' \<noteq> None) (docs b)) \<and>
              sorted_wrt (\<lambda>x y. fs_key (field (snd y) ''date'') \<le> fs_key (field (snd x) ''date''))
                snap))) \<and>
   (getUserStatements b userId limitCount = (b2, r2) \<longrightarrow>
      (if (case limitCount of None \<Rightarrow> 10 | Some n \<Rightarrow> n) = 0 then \<exists>m. r2 = Failure m
       else
         (case faults b (length (calls b)) of
            Some e \<Rightarrow> r2 = Failure (err_message e)
          | None \<Rightarrow>
              (\<exists>snap. r2 = Success (map (\<lambda>(i, d). with_id i d) snap) \<and>
                 length snap \<le> (case limitCount of None \<Rightarrow> 10 | Some n \<Rightarrow> n) \<and>
                 set snap \<subseteq> {(i, d). ((STATEMENTS, i), d) \<in> set (docs b) \<and>
                               d ''userId'' = Some (Str userId) \<and> d ''createdAt'' \<noteq> None} \<and>
                 sorted_wrt (\<lambda>x y. fs_key (field (snd y) ''createdAt'')
                                      \<le> fs_key (field (snd x) ''createdAt'')) snap))))"
proof (intro conjI impI)
  assume run: "getTransactionsByStatement b statementId = (b1, r1)"
  let ?q = "query_of TRANSACTIONS
              [Where ''statementId'' OpEq (Str statementId), OrderBy ''date'' Desc]"
  obtain b' x where g: "getDocs b ?q = (b', x)" by (cases "getDocs b ?q")
  note c = getDocs_cases [OF g]
  show "case faults b (length (calls b)) of
         Some e \<Rightarrow> r1 = Failure (err_message e)
       | None \<Rightarrow>
           (\<exists>snap. r1 = Success (map (\<lambda>(i, d). with_id i d) snap) \<and>
              set snap = {(i, d). ((TRANSACTIONS, i), d) \<in> set (docs b) \<and>
                            d ''statementId'' = Some (Str statementId) \<and> d ''date'' \<noteq> None} \<and>
              length snap =
                length (filter (\<lambda>(k, d). fst k = TRANSACTIONS \<and>
                          d ''statementId'' = Some (Str statementId) \<and> d ''date'' \<noteq> None) (docs b)) \<and>
              sorted_wrt (\<lambda>x y. fs_key (field (snd y) ''date'') \<le> fs_key (field (snd x) ''date''))
                snap)"
  proof (cases "faults b (length (calls b))")
    case (Some e)
    with run g c show ?thesis by (simp add: getTransactionsByStatement_def)
  next
    case None
    with run g c have "r1 = Success (map (\<lambda>(i, d). with_id i d) (run_query (docs b) ?q))"
      by (simp add: getTransactionsByStatement_def)
    with None show ?thesis
      using transactions_query_set [of "docs b" statementId]
            transactions_query_length [of "docs b" statementId]
            transactions_query_sorted [of "docs b" statementId]
      by (simp only: option.case) blast
  qed
next
  assume run: "getUserStatements b userId limitCount = (b2, r2)"
  let ?n = "case limitCount of None \<Rightarrow> 10 | Some n \<Rightarrow> n"
  let ?q = "statements_query userId ?n"
  show "if ?n = 0 then \<exists>m. r2 = Failure m
        else
         (case faults b (length (calls b)) of
            Some e \<Rightarrow> r2 = Failure (err_message e)
          | None \<Rightarrow>
              (\<exists>snap. r2 = Success (map (\<lambda>(i, d). with_id i d) snap) \<and>
                 length snap \<le> ?n \<and>
                 set snap \<subseteq> {(i, d). ((STATEMENTS, i), d) \<in> set (docs b) \<and>
                               d ''userId'' = Some (Str userId) \<and> d ''createdAt'' \<noteq> None} \<and>
                 sorted_wrt (\<lambda>x y. fs_key (field (snd y) ''createdAt'')
                                      \<le> fs_key (field (snd x) ''createdAt'')) snap))"
  proof (cases "?n = 0")
    case True
    with run show ?thesis by (auto simp: getUserStatements_def limit_of_def)
  next
    case positive: False
    obtain b' x where g: "getDocs b ?q = (b', x)" by (cases "getDocs b ?q")
    note c = getDocs_cases [OF g]
    have run': "(case getDocs b ?q of
                   (b1, Inl e) \<Rightarrow> (b1, Failure (err_message e))
                 | (b1, Inr querySnapshot) \<Rightarrow>
                     (b1, Success (map (\<lambda>(i, d). with_id i d) querySnapshot))) = (b2, r2)"
      using run positive by (simp add: getUserStatements_def limit_of_def statements_query_def)
    have "case faults b (length (calls b)) of
            Some e \<Rightarrow> r2 = Failure (err_message e)
          | None \<Rightarrow>
              (\<exists>snap. r2 = Success (map (\<lambda>(i, d). with_id i d) snap) \<and>
                 length snap \<le> ?n \<and>
                 set snap \<subseteq> {(i, d). ((STATEMENTS, i), d) \<in> set (docs b) \<and>
                               d ''userId'' = Some (Str userId) \<and> d ''createdAt'' \<noteq> None} \<and>
                 sorted_wrt (\<lambda>x y. fs_key (field (snd y) ''createdAt'')
                                      \<le> fs_key (field (snd x) ''createdAt'')) snap)"
    proof (cases "faults b (length (calls b))")
      case (Some e)
      with run' g c show ?thesis by simp
    next
      case None
      with run' g c have "r2 = Success (map (\<lambda>(i, d). with_id i d) (run_query (docs b) ?q))"
        by simp
      with None show ?thesis
        using statements_query_set [of "docs b" userId ?n]
              statements_query_length [of "docs b" userId ?n]
              statements_query_sorted [of "docs b" userId ?n]
        by (simp only: option.case) blast
    qed
    with positive show ?thesis by (simp only: if_False)
  qed
qed

theorem queries_filter_and_order_witness:
  "(\<exists>snap. snd (getTransactionsByStatement ledger_example ''s11'') =
            Success (map (\<lambda>(i, d). with_id i d) snap) \<and> length snap = 2 \<and>
      sorted_wrt (\<lambda>x y. fs_key (field (snd y) ''date'') \<le> fs_key (field (snd x) ''date'')) snap) \<and>
   (\<exists>snap. snd (getUserStatements ledger_example ''u1'' None) =
            Success (map (\<lambda>(i, d). with_id i d) snap) \<and> length snap \<le> 10 \<and>
      sorted_wrt (\<lambda>x y. fs_key (field (snd y) ''createdAt'')
                           \<le> fs_key (field (snd x) ''createdAt'')) snap)"
proof -
  have quiet: "faults ledger_example (length (calls ledger_example)) = None"
    by (simp add: ledger_example_def quiet_def)
  have two: "length (filter (\<lambda>(k, d). fst k = TRANSACTIONS \<and>
                d ''statementId'' = Some (Str ''s11'') \<and> d ''date'' \<noteq> None)
              (docs ledger_example)) = 2"
    by (simp add: ledger_example_def statement_of_def TRANSACTIONS_def)
  have ten: "(case None :: nat option of None \<Rightarrow> 10 | Some n \<Rightarrow> n) = (10::nat)"
            "((10::nat) = 0) = False"
    by simp_all
  note th = queries_filter_and_order [of ledger_example "''s11''"
      "fst (getTransactionsByStatement ledger_example ''s11'')"
      "snd (getTransactionsByStatement ledger_example ''s11'')"
      "''u1''" None
      "fst (getUserStatements ledger_example ''u1'' None)"
      "snd (getUserStatements ledger_example ''u1'' None)"]
  have one: "\<exists>snap. snd (getTransactionsByStatement ledger_example ''s11'') =
            Success (map (\<lambda>(i, d). with_id i d) snap) \<and> length snap = 2 \<and>
      sorted_wrt (\<lambda>x y. fs_key (field (snd y) ''date'') \<le> fs_key (field (snd x) ''date'')) snap"
    using th [THEN conjunct1] unfolding prod.collapse quiet option.case two by blast
  have other: "\<exists>snap. snd (getUserStatements ledger_example ''u1'' None) =
            Success (map (\<lambda>(i, d). with_id i d) snap) \<and> length snap \<le> 10 \<and>
      sorted_wrt (\<lambda>x y. fs_key (field (snd y) ''createdAt'')
                           \<le> fs_key (field (snd x) ''createdAt'')) snap"
    using th [THEN conjunct2] unfolding prod.collapse quiet ten option.case if_False by blast
  from one other show ?thesis by (rule conjI)
qed

lemma run_query_matching:
  "run_query ds q = cut (last_limit (q_constraints q)) (matching_docs ds q)"
  by (simp add: run_query_def matching_docs_def)

lemma set_matching_docs:
  "set (matching_docs ds q) =
     {(i, d). ((q_collection q, i), d) \<in> set ds \<and> list_all (satisfies d) (q_constraints q)}"
  by (auto simp: matching_docs_def set_order_docs set_collection_docs)

lemma length_matching_docs:
  "length (matching_docs ds q) =
     length (filter (\<lambda>(k, d). fst k = q_collection q \<and>
                       list_all (satisfies d) (q_constraints q)) ds)"
  by (simp add: matching_docs_def length_order_docs collection_docs_def filter_map o_def
        case_prod_unfold conj_commute)

lemma descending_matching_docs:
  "first_order (q_constraints q) = Some (f, Desc) \<Longrightarrow> descending f (matching_docs ds q)"
  by (simp add: matching_docs_def descending_def order_docs_desc_sorted)

lemma statements_query_satisfies:
  "list_all (satisfies d) (q_constraints (statements_query usr n)) \<longleftrightarrow>
     d ''userId'' = Some (Str usr) \<and> d ''createdAt'' \<noteq> None"
  by (simp add: statements_query_def query_of_def)

lemma statements_query_facts:
  "q_collection (statements_query usr n) = STATEMENTS"
  "first_order (q_constraints (statements_query usr n)) = Some (''createdAt'', Desc)"
  "last_limit (q_constraints (statements_query usr n)) = Some n"
  by (simp_all add: statements_query_def query_of_def)

lemma user_transactions_query_satisfies:
  "list_all (satisfies d) (q_constraints (user_transactions_query ids flt)) \<longleftrightarrow>
     d ''date'' \<noteq> None \<and> (\<exists>v \<in> set (take 10 ids). d ''statementId'' = Some v) \<and>
     (truthy (category flt) \<longrightarrow> d ''category'' = Some (category flt))"
  by (auto simp: user_transactions_query_def Let_def query_of_def query_add_def
           split: if_splits option.splits)

lemma user_transactions_query_facts:
  "q_collection (user_transactions_query ids flt) = TRANSACTIONS"
  "first_order (q_constraints (user_transactions_query ids flt)) = Some (''date'', Desc)"
  "last_limit (q_constraints (user_transactions_query ids flt)) =
     (case limit flt of None \<Rightarrow> None | Some n \<Rightarrow> if n = 0 then None else Some n)"
  by (simp_all add: user_transactions_query_def Let_def query_of_def query_add_def
           split: option.splits)

lemma field_id_with_id: "field (with_id i d) ''id'' = id_of (i, d)"
  by (simp add: field_def with_id_def id_of_def map_add_def split: option.splits)

lemma ids_of_statements:
  "(\<lambda>stmt. field stmt ''id'') \<circ> (\<lambda>(i, d). with_id i d) = id_of"
  by (rule ext) (simp add: case_prod_unfold field_id_with_id)

lemma getUserStatements_hundred:
  "getUserStatements b userId (Some 100) =
     (b\<lparr>calls := calls b @ [GetDocs (statements_query userId 100)]\<rparr>,
      case faults b (length (calls b)) of
        Some e \<Rightarrow> Failure (err_message e)
      | None \<Rightarrow>
          Success (map (\<lambda>(i, d). with_id i d)
                     (take 100 (matching_docs (docs b) (statements_query userId 100)))))"
proof -
  obtain b1 x where g: "getDocs b (statements_query userId 100) = (b1, x)"
    by (cases "getDocs b (statements_query userId 100)")
  note c = getDocs_cases [OF g]
  show ?thesis
    using g c
    by (simp add: getUserStatements_def limit_of_def statements_query_def [symmetric]
          run_query_matching statements_query_facts cut_def split: option.splits)
qed

text \<open>
  C1, as stated: with more than 10 statements, the transactions of every statement of
  the user can appear in the result. In the example, user \<open>u1\<close> has 11 statements;
  transaction \<open>t1\<close> belongs to the oldest one, \<open>s01\<close>, and is not returned: only the
  ten most recent statement ids are queried.
\<close>

theorem getUserTransactions_counterexample:
  "map_option (\<lambda>d. d ''userId'') (map_of (docs ledger_example) (STATEMENTS, ''s01''))
     = Some (Some (Str ''u1'')) \<and>
   map_option (\<lambda>d. d ''statementId'') (map_of (docs ledger_example) (TRANSACTIONS, ''t1''))
     = Some (Some (Str ''s01'')) \<and>
   length (ids_of (snd (getUserStatements ledger_example ''u1'' (Some 100)))) = 11 \<and>
   ids_of (snd (getUserTransactions ledger_example ''u1'' \<lparr>category = Undefined, limit = None\<rparr>))
     = [Str ''t3'', Str ''t2'']"
  by code_simp

text \<open>
  C1, amended. \<open>getUserTransactions\<close> does not chunk. Let \<open>recent\<close> be the user's
  statements, newest first: the documents of the statements collection with a
  \<open>createdAt\<close> field whose \<open>userId\<close> is the user, once each, ordered by \<open>createdAt\<close>
  descending. The operation reads them with a limit of 100 and returns the failure of
  that read, or an empty list when there is none. Otherwise it makes exactly one more
  SDK call, a single query whose \<open>in\<close> list is cut to 10, and returns its failure or,
  each as \<open>{ id, ...fields }\<close>, exactly the transactions that have a \<open>date\<close> field and
  whose \<open>statementId\<close> is the id of one of the first 10 of \<open>recent\<close> (and, when
  \<open>filters.category\<close> is given, whose category is that one), once each, ordered by
  \<open>date\<close> descending and cut to \<open>filters.limit\<close> when given. The id of a statement is
  the \<open>id\<close> property of the object that \<open>getUserStatements\<close> returns for it: the
  document id, unless the stored statement has an \<open>id\<close> field of its own.
\<close>

theorem getUserTransactions_first_ten:
  "getUserTransactions b userId flt = (b', r) \<Longrightarrow>
     (\<exists>recent.
        descending ''createdAt'' recent \<and>
        set recent = {(i, d). ((STATEMENTS, i), d) \<in> set (docs b) \<and>
                        d ''userId'' = Some (Str userId) \<and> d ''createdAt'' \<noteq> None} \<and>
        length recent =
          length (filter (\<lambda>(k, d). fst k = STATEMENTS \<and> d ''userId'' = Some (Str userId) \<and>
                            d ''createdAt'' \<noteq> None) (docs b)) \<and>
        (case faults b (length (calls b)) of
           Some e \<Rightarrow>
             r = Failure (err_message e) \<and>
             calls b' = calls b @ [GetDocs (statements_query userId 100)]
         | None \<Rightarrow>
             if recent = [] then
               r = Success [] \<and> calls b' = calls b @ [GetDocs (statements_query userId 100)]
             else
               calls b' = calls b @
                 [GetDocs (statements_query userId 100),
                  GetDocs (user_transactions_query (map id_of (take 100 recent)) flt)] \<and>
               (case faults b (Suc (length (calls b))) of
                  Some e \<Rightarrow> r = Failure (err_message e)
                | None \<Rightarrow>
                    (\<exists>found.
                       descending ''date'' found \<and>
                       set found =
                         {(i, d). ((TRANSACTIONS, i), d) \<in> set (docs b) \<and> d ''date'' \<noteq> None \<and>
                            (\<exists>v \<in> set (map id_of (take 10 recent)). d ''statementId'' = Some v) \<and>
                            (truthy (category flt) \<longrightarrow> d ''category'' = Some (category flt))} \<and>
                       length found =
                         length (filter (\<lambda>(k, d). fst k = TRANSACTIONS \<and> d ''date'' \<noteq> None \<and>
                            (\<exists>v \<in> set (map id_of (take 10 recent)). d ''statementId'' = Some v) \<and>
                            (truthy (category flt) \<longrightarrow> d ''category'' = Some (category flt)))
                           (docs b)) \<and>
                       r = Success (map (\<lambda>(i, d). with_id i d)
                             (case limit flt of
                                None \<Rightarrow> found
                              | Some n \<Rightarrow> if n = 0 then found else take n found))))))"
proof -
  assume run: "getUserTransactions b userId flt = (b', r)"
  let ?stq = "statements_query userId 100"
  let ?recent = "matching_docs (docs b) ?stq"
  let ?b1 = "b\<lparr>calls := calls b @ [GetDocs ?stq]\<rparr>"
  let ?ids = "map id_of (take 100 ?recent)"
  let ?q = "user_transactions_query ?ids flt"
  let ?found = "matching_docs (docs b) ?q"
  have ten: "take 10 ?ids = map id_of (take 10 ?recent)"
    by (simp add: take_map)
  have r1: "descending ''createdAt'' ?recent"
    by (rule descending_matching_docs) (simp add: statements_query_facts)
  have r2: "set ?recent = {(i, d). ((STATEMENTS, i), d) \<in> set (docs b) \<and>
                        d ''userId'' = Some (Str userId) \<and> d ''createdAt'' \<noteq> None}"
    by (simp add: set_matching_docs statements_query_facts statements_query_satisfies)
  have r3: "length ?recent =
          length (filter (\<lambda>(k, d). fst k = STATEMENTS \<and> d ''userId'' = Some (Str userId) \<and>
                            d ''createdAt'' \<noteq> None) (docs b))"
    by (simp add: length_matching_docs statements_query_facts statements_query_satisfies)
  have f1: "descending ''date'' ?found"
    by (rule descending_matching_docs) (simp add: user_transactions_query_facts)
  have f2: "set ?found =
              {(i, d). ((TRANSACTIONS, i), d) \<in> set (docs b) \<and> d ''date'' \<noteq> None \<and>
                 (\<exists>v \<in> set (map id_of (take 10 ?recent)). d ''statementId'' = Some v) \<and>
                 (truthy (category flt) \<longrightarrow> d ''category'' = Some (category flt))}"
    by (simp add: set_matching_docs user_transactions_query_facts
          user_transactions_query_satisfies ten)
  have f3: "length ?found =
              length (filter (\<lambda>(k, d). fst k = TRANSACTIONS \<and> d ''date'' \<noteq> None \<and>
                 (\<exists>v \<in> set (map id_of (take 10 ?recent)). d ''statementId'' = Some v) \<and>
                 (truthy (category flt) \<longrightarrow> d ''category'' = Some (category flt))) (docs b))"
    by (simp add: length_matching_docs user_transactions_query_facts
          user_transactions_query_satisfies ten)
  have rest: "case faults b (length (calls b)) of
           Some e \<Rightarrow>
             r = Failure (err_message e) \<and> calls b' = calls b @ [GetDocs ?stq]
         | None \<Rightarrow>
             if ?recent = [] then r = Success [] \<and> calls b' = calls b @ [GetDocs ?stq]
             else
               calls b' = calls b @ [GetDocs ?stq, GetDocs ?q] \<and>
               (case faults b (Suc (length (calls b))) of
                  Some e \<Rightarrow> r = Failure (err_message e)
                | None \<Rightarrow>
                    r = Success (map (\<lambda>(i, d). with_id i d)
                          (case limit flt of
                             None \<Rightarrow> ?found
                           | Some n \<Rightarrow> if n = 0 then ?found else take n ?found)))"
  proof (cases "faults b (length (calls b))")
    case (Some e)
    with run show ?thesis
      by (auto simp: getUserTransactions_def getUserStatements_hundred)
  next
    case None
    show ?thesis
    proof (cases "?recent = []")
      case True
      with run None show ?thesis
        by (auto simp: getUserTransactions_def getUserStatements_hundred)
    next
      case False
      obtain b2 x where g: "getDocs ?b1 ?q = (b2, x)" by (cases "getDocs ?b1 ?q")
      note c = getDocs_cases [OF g]
      have run': "(case getDocs ?b1 ?q of
                     (b2, Inl e) \<Rightarrow> (b2, Failure (err_message e))
                   | (b2, Inr querySnapshot) \<Rightarrow>
                       (b2, Success (map (\<lambda>(i, d). with_id i d) querySnapshot))) = (b', r)"
        using run None False
        by (simp add: getUserTransactions_def getUserStatements_hundred Let_def
              ids_of_statements)
      have calls: "calls b' = calls b @ [GetDocs ?stq, GetDocs ?q]"
        using run' g c by (auto split: sum.splits)
      have res: "case faults b (Suc (length (calls b))) of
                  Some e \<Rightarrow> r = Failure (err_message e)
                | None \<Rightarrow>
                    r = Success (map (\<lambda>(i, d). with_id i d)
                          (case limit flt of
                             None \<Rightarrow> ?found
                           | Some n \<Rightarrow> if n = 0 then ?found else take n ?found))"
        using run' g c
        by (auto simp: run_query_matching user_transactions_query_facts cut_def
                 split: sum.splits option.splits)
      from None False calls res show ?thesis by simp
    qed
  qed
  have "descending ''createdAt'' ?recent \<and>
        set ?recent = {(i, d). ((STATEMENTS, i), d) \<in> set (docs b) \<and>
                        d ''userId'' = Some (Str userId) \<and> d ''createdAt'' \<noteq> None} \<and>
        length ?recent =
          length (filter (\<lambda>(k, d). fst k = STATEMENTS \<and> d ''userId'' = Some (Str userId) \<and>
                            d ''createdAt'' \<noteq> None) (docs b)) \<and>
        (case faults b (length (calls b)) of
           Some e \<Rightarrow>
             r = Failure (err_message e) \<and>
             calls b' = calls b @ [GetDocs (statements_query userId 100)]
         | None \<Rightarrow>
             if ?recent = [] then
               r = Success [] \<and> calls b' = calls b @ [GetDocs (statements_query userId 100)]
             else
               calls b' = calls b @
                 [GetDocs (statements_query userId 100),
                  GetDocs (user_transactions_query (map id_of (take 100 ?recent)) flt)] \<and>
               (case faults b (Suc (length (calls b))) of
                  Some e \<Rightarrow> r = Failure (err_message e)
                | None \<Rightarrow>
                    (\<exists>found.
                       descending ''date'' found \<and>
                       set found =
                         {(i, d). ((TRANSACTIONS, i), d) \<in> set (docs b) \<and> d ''date'' \<noteq> None \<and>
                            (\<exists>v \<in> set (map id_of (take 10 ?recent)). d ''statementId'' = Some v) \<and>
                            (truthy (category flt) \<longrightarrow> d ''category'' = Some (category flt))} \<and>
                       length found =
                         length (filter (\<lambda>(k, d). fst k = TRANSACTIONS \<and> d ''date'' \<noteq> None \<and>
                            (\<exists>v \<in> set (map id_of (take 10 ?recent)). d ''statementId'' = Some v) \<and>
                            (truthy (category flt) \<longrightarrow> d ''category'' = Some (category flt)))
                           (docs b)) \<and>
                       r = Success (map (\<lambda>(i, d). with_id i d)
                             (case limit flt of
                                None \<Rightarrow> found
                              | Some n \<Rightarrow> if n = 0 then found else take n found)))))"
  proof (intro conjI r1 r2 r3)
    show "case faults b (length (calls b)) of
           Some e \<Rightarrow>
             r = Failure (err_message e) \<and>
             calls b' = calls b @ [GetDocs (statements_query userId 100)]
         | None \<Rightarrow>
             if ?recent = [] then
               r = Success [] \<and> calls b' = calls b @ [GetDocs (statements_query userId 100)]
             else
               calls b' = calls b @
                 [GetDocs (statements_query userId 100),
                  GetDocs (user_transactions_query (map id_of (take 100 ?recent)) flt)] \<and>
               (case faults b (Suc (length (calls b))) of
                  Some e \<Rightarrow> r = Failure (err_message e)
                | None \<Rightarrow>
                    (\<exists>found.
                       descending ''date'' found \<and>
                       set found =
                         {(i, d). ((TRANSACTIONS, i), d) \<in> set (docs b) \<and> d ''date'' \<noteq> None \<and>
                            (\<exists>v \<in> set (map id_of (take 10 ?recent)). d ''statementId'' = Some v) \<and>
                            (truthy (category flt) \<longrightarrow> d ''category'' = Some (category flt))} \<and>
                       length found =
                         length (filter (\<lambda>(k, d). fst k = TRANSACTIONS \<and> d ''date'' \<noteq> None \<and>
                            (\<exists>v \<in> set (map id_of (take 10 ?recent)). d ''statementId'' = Some v) \<and>
                            (truthy (category flt) \<longrightarrow> d ''category'' = Some (category flt)))
                           (docs b)) \<and>
                       r = Success (map (\<lambda>(i, d). with_id i d)
                             (case limit flt of
                                None \<Rightarrow> found
                              | Some n \<Rightarrow> if n = 0 then found else take n found))))"
    proof (cases "faults b (length (calls b))")
      case (Some e)
      with rest show ?thesis by simp
    next
      case first: None
      show ?thesis
      proof (cases "?recent = []")
        case True
        with rest first show ?thesis by simp
      next
        case False
        show ?thesis
        proof (cases "faults b (Suc (length (calls b)))")
          case (Some e)
          with rest first False show ?thesis by simp
        next
          case None
          with rest first False have
            rres: "r = Success (map (\<lambda>(i, d). with_id i d)
                          (case limit flt of
                             None \<Rightarrow> ?found
                           | Some n \<Rightarrow> if n = 0 then ?found else take n ?found))"
            and cres: "calls b' = calls b @ [GetDocs ?stq, GetDocs ?q]"
            by simp_all
          have inner: "\<exists>found.
                       descending ''date'' found \<and>
                       set found =
                         {(i, d). ((TRANSACTIONS, i), d) \<in> set (docs b) \<and> d ''date'' \<noteq> None \<and>
                            (\<exists>v \<in> set (map id_of (take 10 ?recent)). d ''statementId'' = Some v) \<and>
                            (truthy (category flt) \<longrightarrow> d ''category'' = Some (category flt))} \<and>
                       length found =
                         length (filter (\<lambda>(k, d). fst k = TRANSACTIONS \<and> d ''date'' \<noteq> None \<and>
                            (\<exists>v \<in> set (map id_of (take 10 ?recent)). d ''statementId'' = Some v) \<and>
                            (truthy (category flt) \<longrightarrow> d ''category'' = Some (category flt)))
                           (docs b)) \<and>
                       r = Success (map (\<lambda>(i, d). with_id i d)
                             (case limit flt of
                                None \<Rightarrow> found
                              | Some n \<Rightarrow> if n = 0 then found else take n found))"
            by (rule exI [where x = ?found])
               (rule conjI [OF f1 conjI [OF f2 conjI [OF f3 rres]]])
          from cres inner show ?thesis
            unfolding first None option.case if_not_P [OF False] by (rule conjI)
        qed
      qed
    qed
  qed
  then show ?thesis by (rule exI [where x = ?recent])
qed

theorem getUserTransactions_first_ten_witness:
  "\<exists>recent found.
     length recent = 11 \<and>
     snd (getUserTransactions ledger_example ''u1'' \<lparr>category = Undefined, limit = None\<rparr>)
       = Success (map (\<lambda>(i, d). with_id i d) found) \<and>
     descending ''date'' found \<and>
     (\<forall>x \<in> set found.
        \<exists>v \<in> set (map id_of (take 10 recent)). snd x ''statementId'' = Some v) \<and>
     ids_of (snd (getUserTransactions ledger_example ''u1''
                    \<lparr>category = Undefined, limit = None\<rparr>)) = [Str ''t3'', Str ''t2'']"
proof -
  let ?flt = "\<lparr>category = Undefined, limit = None\<rparr>"
  have eleven: "length (filter (\<lambda>(k, d). fst k = STATEMENTS \<and> d ''userId'' = Some (Str ''u1'') \<and>
                   d ''createdAt'' \<noteq> None) (docs ledger_example)) = 11"
    by (simp add: ledger_example_def statement_of_def STATEMENTS_def)
  have q1: "faults ledger_example (length (calls ledger_example)) = None"
    and q2: "faults ledger_example (Suc (length (calls ledger_example))) = None"
    by (simp_all add: ledger_example_def quiet_def)
  have nolimit: "limit ?flt = None" by simp
  have shown: "ids_of (snd (getUserTransactions ledger_example ''u1'' ?flt)) =
                 [Str ''t3'', Str ''t2'']"
    by code_simp
  note th = getUserTransactions_first_ten [of ledger_example "''u1''" ?flt, OF surjective_pairing]
  from th obtain recent where
    len: "length recent =
            length (filter (\<lambda>(k, d). fst k = STATEMENTS \<and> d ''userId'' = Some (Str ''u1'') \<and>
                   d ''createdAt'' \<noteq> None) (docs ledger_example))"
    and cas: "case faults ledger_example (length (calls ledger_example)) of
           Some e \<Rightarrow>
             snd (getUserTransactions ledger_example ''u1'' ?flt) = Failure (err_message e) \<and>
             calls (fst (getUserTransactions ledger_example ''u1'' ?flt)) =
               calls ledger_example @ [GetDocs (statements_query ''u1'' 100)]
         | None \<Rightarrow>
             if recent = [] then
               snd (getUserTransactions ledger_example ''u1'' ?flt) = Success [] \<and>
               calls (fst (getUserTransactions ledger_example ''u1'' ?flt)) =
                 calls ledger_example @ [GetDocs (statements_query ''u1'' 100)]
             else
               calls (fst (getUserTransactions ledger_example ''u1'' ?flt)) =
                 calls ledger_example @
                 [GetDocs (statements_query ''u1'' 100),
                  GetDocs (user_transactions_query (map id_of (take 100 recent)) ?flt)] \<and>
               (case faults ledger_example (Suc (length (calls ledger_example))) of
                  Some e \<Rightarrow>
                    snd (getUserTransactions ledger_example ''u1'' ?flt) = Failure (err_message e)
                | None \<Rightarrow>
                    (\<exists>found.
                       descending ''date'' found \<and>
                       set found =
                         {(i, d). ((TRANSACTIONS, i), d) \<in> set (docs ledger_example) \<and>
                            d ''date'' \<noteq> None \<and>
                            (\<exists>v \<in> set (map id_of (take 10 recent)). d ''statementId'' = Some v) \<and>
                            (truthy (category ?flt) \<longrightarrow> d ''category'' = Some (category ?flt))} \<and>
                       length found =
                         length (filter (\<lambda>(k, d). fst k = TRANSACTIONS \<and> d ''date'' \<noteq> None \<and>
                            (\<exists>v \<in> set (map id_of (take 10 recent)). d ''statementId'' = Some v) \<and>
                            (truthy (category ?flt) \<longrightarrow> d ''category'' = Some (category ?flt)))
                           (docs ledger_example)) \<and>
                       snd (getUserTransactions ledger_example ''u1'' ?flt) =
                         Success (map (\<lambda>(i, d). with_id i d)
                             (case limit ?flt of
                                None \<Rightarrow> found
                              | Some n \<Rightarrow> if n = 0 then found else take n found))))"
    by (elim exE conjE)
  have len11: "length recent = 11" using len eleven by simp
  then have ne: "recent \<noteq> []" by auto
  from cas obtain found where
    desc: "descending ''date'' found"
    and mem: "set found =
                {(i, d). ((TRANSACTIONS, i), d) \<in> set (docs ledger_example) \<and>
                   d ''date'' \<noteq> None \<and>
                   (\<exists>v \<in> set (map id_of (take 10 recent)). d ''statementId'' = Some v) \<and>
                   (truthy (category ?flt) \<longrightarrow> d ''category'' = Some (category ?flt))}"
    and res: "snd (getUserTransactions ledger_example ''u1'' ?flt) =
                Success (map (\<lambda>(i, d). with_id i d) found)"
    unfolding q1 q2 option.case if_not_P [OF ne] nolimit by (elim exE conjE)
  have within: "\<forall>x \<in> set found.
        \<exists>v \<in> set (map id_of (take 10 recent)). snd x ''statementId'' = Some v"
    unfolding mem by (simp add: case_prod_unfold)
  from len11 res desc within shown show ?thesis
    by (intro exI [where x = recent] exI [where x = found] conjI)
qed

section \<open>Sign-in and the user document\<close>

lemma default_user_document_fields:
  "additionalData ''settings'' = None \<Longrightarrow> additionalData ''profile'' = None \<Longrightarrow>
   additionalData ''subscription'' = None \<Longrightarrow>
     has_default_fields t (stamp_doc t (default_user_document u additionalData))"
  by (simp add: has_default_fields_def stamp_doc_def default_user_document_def map_add_def
        default_settings_def default_profile_def default_subscription_def)

lemma createUserDocument_creates:
  "map_of (docs b) (USERS, uid u) = None \<Longrightarrow> faults b (length (calls b)) = None \<Longrightarrow>
   faults b (Suc (length (calls b))) = None \<Longrightarrow>
   createUserDocument b (Some u) additionalData = (b', r) \<Longrightarrow>
     docs b' = AList.update (USERS, uid u)
                 (stamp_doc (clock b) (default_user_document u additionalData)) (docs b) \<and>
     r = Inr (Some (USERS, uid u))"
  by (auto simp: createUserDocument_def getDoc_def setDoc_def invoke_def snap_exists_def
           split: option.splits)

lemma signIn_docs: "docs (fst (signIn hfe b em pw)) = docs b"
  by (auto simp: signIn_def signInWithEmailAndPassword_def invoke_def
           split: option.splits prod.splits sum.splits if_splits)

lemma signInWithGoogle_creates:
  assumes g: "google b = Some u" and nodoc: "map_of (docs b) (USERS, uid u) = None"
    and quiet: "\<forall>n<3. faults b (length (calls b) + n) = None"
  shows "docs (fst (signInWithGoogle hfe b)) =
           AList.update (USERS, uid u)
             (stamp_doc (clock b) (default_user_document u Map.empty)) (docs b)"
proof -
  have f0: "faults b (length (calls b)) = None" using quiet by (auto dest: spec [of _ 0])
  have f1: "faults b (Suc (length (calls b))) = None" using quiet by (auto dest: spec [of _ 1])
  have f2: "faults b (Suc (Suc (length (calls b)))) = None" using quiet by (auto dest: spec [of _ 2])
  let ?b1 = "b\<lparr>calls := calls b @ [SignInWithPopup]\<rparr>"
  have popup: "signInWithPopup b = (?b1, Inr u)"
    using g f0 by (simp add: signInWithPopup_def invoke_def)
  obtain b2 r where c: "createUserDocument ?b1 (Some u) Map.empty = (b2, r)"
    by (cases "createUserDocument ?b1 (Some u) Map.empty")
  have "docs b2 = AList.update (USERS, uid u)
                 (stamp_doc (clock ?b1) (default_user_document u Map.empty)) (docs ?b1) \<and>
        r = Inr (Some (USERS, uid u))"
    by (rule createUserDocument_creates [OF _ _ _ c]) (simp_all add: nodoc f1 f2)
  then show ?thesis using popup c by (simp add: signInWithGoogle_def)
qed

lemma signUp_creates:
  assumes fresh: "map_of (accounts b) em = None"
    and nodoc: "map_of (docs b) (USERS, fresh_id b (next_id b)) = None"
    and quiet: "\<forall>n<4. faults b (length (calls b) + n) = None"
  shows "docs (fst (signUp hfe b em pw dn)) =
           AList.update (USERS, fresh_id b (next_id b))
             (stamp_doc (clock b)
                (default_user_document
                   \<lparr>uid = fresh_id b (next_id b), email = Some em,
                    displayName = (if dn = [] then None else Some dn), photoURL = None\<rparr>
                   [''displayName'' \<mapsto> Str dn])) (docs b)"
proof -
  have f0: "faults b (length (calls b)) = None" using quiet by (auto dest: spec [of _ 0])
  have f1: "faults b (Suc (length (calls b))) = None" using quiet by (auto dest: spec [of _ 1])
  have f2: "faults b (Suc (Suc (length (calls b)))) = None" using quiet by (auto dest: spec [of _ 2])
  have f3: "faults b (Suc (Suc (Suc (length (calls b))))) = None"
    using quiet [rule_format, of 3] by (simp add: eval_nat_numeral)
  let ?fresh = "\<lparr>uid = fresh_id b (next_id b), email = Some em, displayName = None, photoURL = None\<rparr>"
  obtain b1 where create: "createUserWithEmailAndPassword b em pw = (b1, Inr ?fresh)"
      and b1: "docs b1 = docs b" "clock b1 = clock b" "faults b1 = faults b"
              "calls b1 = calls b @ [CreateUserWithEmailAndPassword em pw]"
    using fresh f0 by (simp add: createUserWithEmailAndPassword_def invoke_def)
  show ?thesis
  proof (cases "dn = []")
    case True
    obtain b3 r where c: "createUserDocument b1 (Some ?fresh) [''displayName'' \<mapsto> Str dn] = (b3, r)"
      by (cases "createUserDocument b1 (Some ?fresh) [''displayName'' \<mapsto> Str dn]")
    have "docs b3 = AList.update (USERS, uid ?fresh)
                 (stamp_doc (clock b1) (default_user_document ?fresh [''displayName'' \<mapsto> Str dn]))
                 (docs b1) \<and> r = Inr (Some (USERS, uid ?fresh))"
      by (rule createUserDocument_creates [OF _ _ _ c]) (simp_all add: b1 nodoc f1 f2)
    then show ?thesis using create c True b1 by (simp add: signUp_def)
  next
    case False
    let ?renamed = "?fresh\<lparr>displayName := Some dn\<rparr>"
    obtain b2 where upd: "updateProfile b1 ?fresh dn = (b2, Inr ?renamed)"
      and b2: "docs b2 = docs b" "clock b2 = clock b" "faults b2 = faults b"
              "calls b2 = calls b @ [CreateUserWithEmailAndPassword em pw,
                                      UpdateProfile (fresh_id b (next_id b))]"
      using f1 b1 by (simp add: updateProfile_def invoke_def)
    obtain b3 r where c: "createUserDocument b2 (Some ?renamed) [''displayName'' \<mapsto> Str dn] = (b3, r)"
      by (cases "createUserDocument b2 (Some ?renamed) [''displayName'' \<mapsto> Str dn]")
    have "docs b3 = AList.update (USERS, uid ?renamed)
                 (stamp_doc (clock b2) (default_user_document ?renamed [''displayName'' \<mapsto> Str dn]))
                 (docs b2) \<and> r = Inr (Some (USERS, uid ?renamed))"
      by (rule createUserDocument_creates [OF _ _ _ c]) (simp_all add: b2 nodoc f2 f3)
    then show ?thesis using create upd c False b2 by (simp add: signUp_def)
  qed
qed

text \<open>
  C2, as stated: a first sign-in by email and password creates the user document. Here
  a user signs up while the document write fails (the failure is caught and logged, the
  sign-up succeeds), then signs in with email and password: the sign-in succeeds and
  there is still no document in the store.
\<close>

theorem signIn_counterexample:
  "map_option (\<lambda>d. d ''uid'')
     (payload (snd (signUp err_message (auth_example\<lparr>faults := set_doc_fails\<rparr>)
                      ''asha@mail.mu'' ''secret'' ''Asha''))) = Some (Some (Str ''doc'')) \<and>
   map_option (\<lambda>d. d ''uid'')
     (payload (snd (signIn err_message
        (fst (signUp err_message (auth_example\<lparr>faults := set_doc_fails\<rparr>)
                ''asha@mail.mu'' ''secret'' ''Asha''))
        ''asha@mail.mu'' ''secret''))) = Some (Some (Str ''doc'')) \<and>
   length (docs (fst (signIn err_message
        (fst (signUp err_message (auth_example\<lparr>faults := set_doc_fails\<rparr>)
                ''asha@mail.mu'' ''secret'' ''Asha''))
        ''asha@mail.mu'' ''secret''))) = 0"
  by code_simp

text \<open>
  C2, amended. The email/password \<open>signIn\<close> never changes the document store. The
  Google sign-in, and the email/password sign-up, do create the user document when there
  is none under the user's uid and the SDK calls succeed: the store gains exactly one
  document, in the users collection under the uid, with the default settings, profile
  and subscription.
\<close>

theorem user_document_on_first_sign_in:
  "docs (fst (signIn hfe b em pw)) = docs b \<and>
   (google b = Some u \<and> map_of (docs b) (USERS, uid u) = None \<and>
    (\<forall>n<3. faults b (length (calls b) + n) = None) \<longrightarrow>
      (\<exists>d. docs (fst (signInWithGoogle hfe b)) = AList.update (USERS, uid u) d (docs b) \<and>
           map_of (docs (fst (signInWithGoogle hfe b))) (USERS, uid u) = Some d \<and>
           has_default_fields (clock b) d)) \<and>
   (map_of (accounts b) em = None \<and> map_of (docs b) (USERS, fresh_id b (next_id b)) = None \<and>
    (\<forall>n<4. faults b (length (calls b) + n) = None) \<longrightarrow>
      (\<exists>d. docs (fst (signUp hfe b em pw dn)) =
             AList.update (USERS, fresh_id b (next_id b)) d (docs b) \<and>
           map_of (docs (fst (signUp hfe b em pw dn))) (USERS, fresh_id b (next_id b)) = Some d \<and>
           has_default_fields (clock b) d))"
proof (intro conjI impI)
  show "docs (fst (signIn hfe b em pw)) = docs b" by (rule signIn_docs)
next
  assume a: "google b = Some u \<and> map_of (docs b) (USERS, uid u) = None \<and>
             (\<forall>n<3. faults b (length (calls b) + n) = None)"
  let ?d = "stamp_doc (clock b) (default_user_document u Map.empty)"
  have "docs (fst (signInWithGoogle hfe b)) = AList.update (USERS, uid u) ?d (docs b)"
    using a by (intro signInWithGoogle_creates) simp_all
  moreover have "has_default_fields (clock b) ?d"
    by (rule default_user_document_fields) simp_all
  ultimately show "\<exists>d. docs (fst (signInWithGoogle hfe b)) = AList.update (USERS, uid u) d (docs b) \<and>
           map_of (docs (fst (signInWithGoogle hfe b))) (USERS, uid u) = Some d \<and>
           has_default_fields (clock b) d"
    by (simp add: update_conv')
next
  assume a: "map_of (accounts b) em = None \<and>
             map_of (docs b) (USERS, fresh_id b (next_id b)) = None \<and>
             (\<forall>n<4. faults b (length (calls b) + n) = None)"
  let ?d = "stamp_doc (clock b)
                (default_user_document
                   \<lparr>uid = fresh_id b (next_id b), email = Some em,
                    displayName = (if dn = [] then None else Some dn), photoURL = None\<rparr>
                   [''displayName'' \<mapsto> Str dn])"
  have "docs (fst (signUp hfe b em pw dn)) =
          AList.update (USERS, fresh_id b (next_id b)) ?d (docs b)"
    using a by (intro signUp_creates) simp_all
  moreover have "has_default_fields (clock b) ?d"
    by (rule default_user_document_fields) simp_all
  ultimately show "\<exists>d. docs (fst (signUp hfe b em pw dn)) =
             AList.update (USERS, fresh_id b (next_id b)) d (docs b) \<and>
           map_of (docs (fst (signUp hfe b em pw dn))) (USERS, fresh_id b (next_id b)) = Some d \<and>
           has_default_fields (clock b) d"
    by (simp add: update_conv')
qed

theorem user_document_on_first_sign_in_witness:
  "(\<exists>d. map_of (docs (fst (signInWithGoogle err_message auth_example))) (USERS, ''g-42'') = Some d \<and>
        has_default_fields 5 d) \<and>
   (\<exists>d. map_of (docs (fst (signUp err_message auth_example ''asha@mail.mu'' ''secret'' ''Asha'')))
          (USERS, ''doc'') = Some d \<and> has_default_fields 5 d)"
proof -
  let ?ravi = "\<lparr>uid = ''g-42'', email = Some ''ravi@gmail.com'',
                displayName = Some ''Ravi'', photoURL = Some ''https://lh3/ravi.png''\<rparr>"
  note th = user_document_on_first_sign_in [of err_message auth_example "''asha@mail.mu''"
              "''secret''" ?ravi "''Asha''"]
  have g: "google auth_example = Some ?ravi \<and> map_of (docs auth_example) (USERS, uid ?ravi) = None \<and>
           (\<forall>n<3. faults auth_example (length (calls auth_example) + n) = None)"
    by (simp add: auth_example_def quiet_def)
  have s: "map_of (accounts auth_example) ''asha@mail.mu'' = None \<and>
           map_of (docs auth_example) (USERS, fresh_id auth_example (next_id auth_example)) = None \<and>
           (\<forall>n<4. faults auth_example (length (calls auth_example) + n) = None)"
    by (simp add: auth_example_def quiet_def)
  have eqs: "uid ?ravi = ''g-42''" "clock auth_example = 5"
            "fresh_id auth_example (next_id auth_example) = ''doc''"
    by (simp_all add: auth_example_def auto_ids_def)
  from th g have
    "\<exists>d. docs (fst (signInWithGoogle err_message auth_example)) =
            AList.update (USERS, uid ?ravi) d (docs auth_example) \<and>
          map_of (docs (fst (signInWithGoogle err_message auth_example))) (USERS, uid ?ravi) = Some d \<and>
          has_default_fields (clock auth_example) d"
    by blast
  then have one: "\<exists>d. map_of (docs (fst (signInWithGoogle err_message auth_example)))
                        (USERS, ''g-42'') = Some d \<and> has_default_fields 5 d"
    unfolding eqs by blast
  from th s have
    "\<exists>d. docs (fst (signUp err_message auth_example ''asha@mail.mu'' ''secret'' ''Asha'')) =
            AList.update (USERS, fresh_id auth_example (next_id auth_example)) d (docs auth_example) \<and>
          map_of (docs (fst (signUp err_message auth_example ''asha@mail.mu'' ''secret'' ''Asha'')))
            (USERS, fresh_id auth_example (next_id auth_example)) = Some d \<and>
          has_default_fields (clock auth_example) d"
    by blast
  then have two: "\<exists>d. map_of (docs (fst (signUp err_message auth_example ''asha@mail.mu''
                        ''secret'' ''Asha''))) (USERS, ''doc'') = Some d \<and> has_default_fields 5 d"
    unfolding eqs by blast
  from one two show ?thesis by (rule conjI)
qed

end
